theory Spec2Isabelle
  imports Main
begin

section \<open>JavaScript values used by the Game aggregate\<close>

text \<open>
  The aggregate keeps scores in plain objects (\<^verbatim>\<open>Record<id, number>\<close>). Reading a key
  that is absent yields \<^verbatim>\<open>undefined\<close>, and arithmetic on \<^verbatim>\<open>undefined\<close> yields
  \<^verbatim>\<open>NaN\<close>; neither raises. The model therefore keeps the three kinds of value apart.
  Scores are integers (within the exactly representable range of a JS number).
\<close>

datatype jsval = Num int | NaN | Undefined

text \<open>\<^verbatim>\<open>a + b\<close> on numbers.\<close>
fun js_add :: "jsval \<Rightarrow> jsval \<Rightarrow> jsval" where
  "js_add (Num a) (Num b) = Num (a + b)"
| "js_add _ _ = NaN"

text \<open>\<^verbatim>\<open>a - b\<close>.\<close>
fun js_sub :: "jsval \<Rightarrow> jsval \<Rightarrow> jsval" where
  "js_sub (Num a) (Num b) = Num (a - b)"
| "js_sub _ _ = NaN"

text \<open>\<^verbatim>\<open>a >= b\<close>: false as soon as one side is \<^verbatim>\<open>NaN\<close> or \<^verbatim>\<open>undefined\<close>.\<close>
fun js_ge :: "jsval \<Rightarrow> jsval \<Rightarrow> bool" where
  "js_ge (Num a) (Num b) = (a \<ge> b)"
| "js_ge _ _ = False"

text \<open>\<^verbatim>\<open>a < b\<close>.\<close>
fun js_lt :: "jsval \<Rightarrow> jsval \<Rightarrow> bool" where
  "js_lt (Num a) (Num b) = (a < b)"
| "js_lt _ _ = False"

text \<open>\<^verbatim>\<open>a > b\<close>.\<close>
fun js_gt :: "jsval \<Rightarrow> jsval \<Rightarrow> bool" where
  "js_gt (Num a) (Num b) = (a > b)"
| "js_gt _ _ = False"

text \<open>\<^verbatim>\<open>a === b\<close>: \<^verbatim>\<open>NaN\<close> is not equal to itself.\<close>
fun js_seq :: "jsval \<Rightarrow> jsval \<Rightarrow> bool" where
  "js_seq (Num a) (Num b) = (a = b)"
| "js_seq Undefined Undefined = True"
| "js_seq _ _ = False"

text \<open>\<^verbatim>\<open>record[key]\<close> for a record of numbers.\<close>
definition lookup :: "('k \<rightharpoonup> jsval) \<Rightarrow> 'k \<Rightarrow> jsval" where
  "lookup m k = (case m k of None \<Rightarrow> Undefined | Some v \<Rightarrow> v)"

section \<open>Data model (Game.ts)\<close>

text \<open>
  The types of Game.ts, field by field. Some field names differ from the source because
  the source's name is taken in HOL or used twice: \<^verbatim>\<open>id\<close> is \<open>user_id\<close> in \<open>SafeUser\<close> and
  \<open>game_id\<close> in \<open>Game\<close>, \<^verbatim>\<open>round\<close> is \<open>roundNo\<close>, the \<^verbatim>\<open>winner\<close> of an \<open>Envido\<close>
  is \<open>envidoWinner\<close> (\<open>winner\<close> is the match winner of \<open>GameState\<close>), and \<^verbatim>\<open>call\<close> and
  \<^verbatim>\<open>caller\<close> of \<open>Truco\<close> are \<open>trucoCall\<close> and \<open>trucoCaller\<close>. User ids are numbers; an
  optional field (\<^verbatim>\<open>T | undefined\<close>) is an \<open>option\<close>.
\<close>

type_synonym UserId = int

text \<open>\<^verbatim>\<open>SafeUser\<close> is declared in the users module; the aggregate reads \<^verbatim>\<open>id\<close> and
  \<^verbatim>\<open>username\<close> only.\<close>
record SafeUser =
  user_id :: UserId
  username :: string

definition MAX_POINTS :: int where
  "MAX_POINTS = 5"

datatype EnvidoCall = ENVIDO | REAL_ENVIDO | FALTA_ENVIDO

record Envido =
  calls :: "EnvidoCall list"
  firstCaller :: "UserId option"
  lastCaller :: "UserId option"
  acceptedBy :: "UserId option"
  accepted :: "bool option"
  waitingResponse :: bool
  envidoWinner :: "UserId option"
  playersPoints :: "(UserId \<rightharpoonup> jsval) option"

datatype TrucoCall = TRUCO | RETRUCO | VALE_CUATRO

text \<open>The type \<^verbatim>\<open>Truco\<close> is declared and exported by Game.ts, but no field of
  \<^verbatim>\<open>GameState\<close> or \<^verbatim>\<open>Game\<close> and no parameter or result of a method has this type.\<close>
record Truco =
  trucoCall :: TrucoCall
  trucoCaller :: UserId

type_synonym UsersPoints = "UserId \<rightharpoonup> jsval"

text \<open>The type of cards is declared in Cards.ts and is the type parameter \<open>'c\<close> here.
  Modelled from the spec: a card is identified by suit and rank and equality on cards
  is structural, so \<^verbatim>\<open>includes\<close> and \<^verbatim>\<open>!==\<close> on cards are HOL (in)equality.\<close>
record 'c GameState =
  started :: bool
  firstPlayer :: UserId
  playerTurn :: UserId
  winner :: "UserId option"
  roundNo :: int
  cards :: "UserId \<rightharpoonup> 'c list"
  thrownCards :: "UserId \<rightharpoonup> 'c list"
  trucoPoints :: int
  points :: UsersPoints
  envido :: Envido

datatype 'c GameEvent =
    START
  | ENVIDO_CALL EnvidoCall UserId
  | ENVIDO_ACCEPTED UserId UsersPoints
  | ENVIDO_DECLINED UserId UsersPoints
  | TRUCO_CALL TrucoCall UserId
  | TRUCO_ACCEPT UserId TrucoCall
  | TRUCO_DECLINE UserId TrucoCall
  | THROW_CARD UserId 'c UserId
  | TO_DECK UserId
  | ROUND_RESULT UserId UsersPoints
  | NEXT_ROUND int "UserId \<rightharpoonup> 'c list" UserId
  | RESULT UserId UsersPoints

record 'c Game =
  game_id :: int
  name :: string
  players :: "SafeUser list"
  state :: "'c GameState"
  events :: "'c GameEvent list"

text \<open>The errors a transition can end in. The first six are the messages the aggregate
  throws itself (\<^verbatim>\<open>'Not your turn'\<close>, \<^verbatim>\<open>'Waiting response'\<close>, \<^verbatim>\<open>'Invalid card'\<close>,
  \<^verbatim>\<open>'Invalid step'\<close>, \<^verbatim>\<open>'Invalid envido call'\<close>, \<^verbatim>\<open>'Not waiting response'\<close>).
  \<open>TypeError\<close> is the runtime's own error for a property read on \<^verbatim>\<open>undefined\<close>
  (\<^verbatim>\<open>players[1].id\<close> with one player, \<^verbatim>\<open>cards[userId].includes\<close> with no hand).
  \<open>UndefinedId\<close> marks the one place where the code asserts with \<^verbatim>\<open>!!\<close> that an
  optional id is present and stores it in a field of type id: the runtime would go on
  with \<^verbatim>\<open>undefined\<close> as \<^verbatim>\<open>playerTurn\<close>, a state outside the declared type, and the
  model stops there.\<close>
datatype error =
    NotYourTurn | WaitingResponse | InvalidCard | InvalidStep | InvalidEnvidoCall
  | NotWaitingResponse | TypeError | UndefinedId

text \<open>Sequencing of steps that may throw: the first error ends the transition.\<close>
definition ebind :: "error + 'a \<Rightarrow> ('a \<Rightarrow> error + 'b) \<Rightarrow> error + 'b" where
  "ebind m f = (case m of Inl e \<Rightarrow> Inl e | Inr x \<Rightarrow> f x)"

text \<open>The functions the aggregate imports from Cards.ts, which is not among the sources:
  they are a parameter \<open>C\<close> of the transitions that call them. \<open>getEnvidoCardsValue\<close> and
  \<open>getRoundWinner\<close> are called on arguments of their declared types only and are taken
  to return without throwing, an integer and an id or \<^verbatim>\<open>undefined\<close>. \<open>getCardValue\<close> is
  also called on \<^verbatim>\<open>undefined\<close> (the last element of an empty array, written \<open>None\<close>), so
  it may throw or return any JS value. \<open>generatePlayersCards\<close> is the random deal: the
  pair of hands it returns is the parameter \<open>deal\<close> of each transition that may deal.\<close>
record 'c Cards =
  getCardValue :: "'c option \<Rightarrow> error + jsval"
  getEnvidoCardsValue :: "'c list \<Rightarrow> int"
  getRoundWinner :: "UserId list \<Rightarrow> (UserId \<rightharpoonup> 'c list) \<Rightarrow> UserId option"

section \<open>The Game aggregate\<close>

text \<open>\<^verbatim>\<open>Game.new(user)\<close>.\<close>
definition new :: "SafeUser \<Rightarrow> 'c Game" where
  "new user =
     \<lparr> game_id = 0, name = username user, players = [user],
       state = \<lparr> started = False, firstPlayer = user_id user, playerTurn = user_id user,
                 winner = None, roundNo = 1, cards = Map.empty, thrownCards = Map.empty,
                 trucoPoints = 1, points = Map.empty,
                 envido = \<lparr> calls = [], firstCaller = None, lastCaller = None,
                            acceptedBy = None, accepted = None, waitingResponse = False,
                            envidoWinner = None, playersPoints = None \<rparr> \<rparr>,
       events = [] \<rparr>"

text \<open>\<^verbatim>\<open>this.players[i].id\<close>: a TypeError when there is no such player.\<close>
definition playerId :: "'c Game \<Rightarrow> nat \<Rightarrow> error + UserId" where
  "playerId g i = (if i < length (players g) then Inr (user_id (players g ! i)) else Inl TypeError)"

text \<open>\<^verbatim>\<open>this.players.find(player => player.id !== userId)!.id\<close>.\<close>
definition otherPlayerId :: "'c Game \<Rightarrow> UserId \<Rightarrow> error + UserId" where
  "otherPlayerId g u =
     (case List.find (\<lambda>p. user_id p \<noteq> u) (players g) of
        None \<Rightarrow> Inl TypeError
      | Some p \<Rightarrow> Inr (user_id p))"

text \<open>\<^verbatim>\<open>this.state.thrownCards[id] || []\<close>.\<close>
definition thrownOf :: "'c Game \<Rightarrow> UserId \<Rightarrow> 'c list" where
  "thrownOf g i = (case thrownCards (state g) i of None \<Rightarrow> [] | Some t \<Rightarrow> t)"

definition canJoin :: "'c Game \<Rightarrow> UserId \<Rightarrow> bool" where
  "canJoin g userId =
     (\<not> started (state g) \<and> length (players g) = 1 \<and> user_id (players g ! 0) \<noteq> userId)"

definition join :: "'c Game \<Rightarrow> SafeUser \<Rightarrow> 'c Game" where
  "join g user = g\<lparr> players := players g @ [user] \<rparr>"

definition start :: "'c list \<times> 'c list \<Rightarrow> 'c Game \<Rightarrow> error + 'c Game" where
  "start deal g =
     ebind (playerId g 0) (\<lambda>p0.
     ebind (playerId g 1) (\<lambda>p1.
       let pts = [p0 \<mapsto> Num 0, p1 \<mapsto> Num 0];
           cs = [p0 \<mapsto> fst deal, p1 \<mapsto> snd deal];
           evs = events g @ [START, NEXT_ROUND (roundNo (state g)) cs (firstPlayer (state g))]
       in Inr (g\<lparr> events := evs,
                   state := (state g)\<lparr> started := True, cards := cs, points := pts \<rparr> \<rparr>)))"

definition isWaitingResponse :: "'c Game \<Rightarrow> bool" where
  "isWaitingResponse g = waitingResponse (envido (state g))"

definition getPlayersIds :: "'c Game \<Rightarrow> UserId list" where
  "getPlayersIds g = map user_id (players g)"

definition getNewEvents :: "'c Game \<Rightarrow> 'c Game \<Rightarrow> 'c GameEvent list" where
  "getNewEvents g oldGame = drop (length (events oldGame)) (events g)"

text \<open>\<^verbatim>\<open>step()\<close>: one more than the shorter of the two thrown piles.\<close>
definition step :: "'c Game \<Rightarrow> error + nat" where
  "step g =
     ebind (playerId g 0) (\<lambda>p0.
     ebind (playerId g 1) (\<lambda>p1.
       let player1ThrownCards = thrownOf g p0;
           player2ThrownCards = thrownOf g p1;
           thrown = (if length player1ThrownCards < length player2ThrownCards
                     then player1ThrownCards else player2ThrownCards)
       in Inr (length thrown + 1)))"

text \<open>\<^verbatim>\<open>xs[xs.length - 1]\<close>.\<close>
definition lastOf :: "'a list \<Rightarrow> 'a option" where
  "lastOf xs = (if xs = [] then None else Some (last xs))"

definition setNextTurnPlayer :: "'c Cards \<Rightarrow> 'c Game \<Rightarrow> error + 'c Game" where
  "setNextTurnPlayer C g =
     ebind (playerId g 0) (\<lambda>p0.
     ebind (playerId g 1) (\<lambda>p1.
       let player1ThrownCards = thrownOf g p0;
           player2ThrownCards = thrownOf g p1
       in if length player1ThrownCards = length player2ThrownCards then
            ebind (getCardValue C (lastOf player1ThrownCards)) (\<lambda>player1LastCardValue.
            ebind (getCardValue C (lastOf player2ThrownCards)) (\<lambda>player2LastCardValue.
              Inr (g\<lparr> state := (state g)\<lparr> playerTurn :=
                     (if js_seq player1LastCardValue player2LastCardValue
                      then (if playerTurn (state g) = p0 then p1 else p0)
                      else (if js_gt player1LastCardValue player2LastCardValue
                            then p0 else p1)) \<rparr> \<rparr>)))
          else
            Inr (g\<lparr> state := (state g)\<lparr> playerTurn :=
                   (if length player1ThrownCards < length player2ThrownCards
                    then p0 else p1) \<rparr> \<rparr>)))"

text \<open>\<^verbatim>\<open>withWinnerResult()\<close>. The condition is \<^verbatim>\<open>a || b\<close>: the second player's id is read
  only when the first comparison is false. The winner is chosen by comparing the first
  player's points with themselves, as the source does.\<close>
definition withWinnerResult :: "'c Game \<Rightarrow> error + 'c Game option" where
  "withWinnerResult g =
     ebind (playerId g 0) (\<lambda>p0.
     ebind (if js_ge (lookup (points (state g)) p0) (Num MAX_POINTS) then Inr True
            else ebind (playerId g 1) (\<lambda>p1.
                   Inr (js_ge (lookup (points (state g)) p1) (Num MAX_POINTS)))) (\<lambda>reached.
       if reached then
         ebind (if js_ge (lookup (points (state g)) p0) (lookup (points (state g)) p0)
                then Inr p0 else playerId g 1) (\<lambda>w.
           Inr (Some (g\<lparr> events := events g @ [RESULT w (points (state g))],
                         state := (state g)\<lparr> winner := Some w \<rparr> \<rparr>)))
       else Inr None))"

text \<open>\<^verbatim>\<open>withNextRoundOrWin()\<close>; \<open>deal\<close> is what \<^verbatim>\<open>generatePlayersCards()\<close> returns.\<close>
definition withNextRoundOrWin :: "'c list \<times> 'c list \<Rightarrow> 'c Game \<Rightarrow> error + 'c Game" where
  "withNextRoundOrWin deal g =
     ebind (withWinnerResult g) (\<lambda>r.
       case r of
         Some game \<Rightarrow> Inr game
       | None \<Rightarrow>
           ebind (playerId g 0) (\<lambda>p0.
           ebind (playerId g 1) (\<lambda>p1.
             let cs = [p0 \<mapsto> fst deal, p1 \<mapsto> snd deal];
                 rnd = roundNo (state g) + 1;
                 fp = (if firstPlayer (state g) = p0 then p1 else p0)
             in Inr (g\<lparr> events := events g @ [NEXT_ROUND rnd cs fp],
                         state := \<lparr> started = True, firstPlayer = fp, playerTurn = fp,
                                    winner = None, roundNo = rnd, cards = cs,
                                    thrownCards = Map.empty, trucoPoints = 1,
                                    points = points (state g),
                                    envido = \<lparr> calls = [], firstCaller = None,
                                               lastCaller = None, acceptedBy = None,
                                               accepted = None, waitingResponse = False,
                                               envidoWinner = None,
                                               playersPoints = None \<rparr> \<rparr> \<rparr>))))"

definition setRoundWinner :: "'c list \<times> 'c list \<Rightarrow> 'c Game \<Rightarrow> UserId \<Rightarrow> error + 'c Game" where
  "setRoundWinner deal g w =
     (let extraPoints = trucoPoints (state g);
          pts = (points (state g))(w \<mapsto> js_add (lookup (points (state g)) w) (Num extraPoints))
      in withNextRoundOrWin deal
           (g\<lparr> events := events g @ [ROUND_RESULT w pts],
               state := (state g)\<lparr> points := pts \<rparr> \<rparr>))"

definition withRoundWinnerValidation ::
    "'c Cards \<Rightarrow> 'c list \<times> 'c list \<Rightarrow> 'c Game \<Rightarrow> error + 'c Game" where
  "withRoundWinnerValidation C deal g =
     (case getRoundWinner C (getPlayersIds g) (thrownCards (state g)) of
        None \<Rightarrow> Inr g
      | Some w \<Rightarrow> setRoundWinner deal g w)"

definition goToDeck :: "'c list \<times> 'c list \<Rightarrow> 'c Game \<Rightarrow> UserId \<Rightarrow> error + 'c Game" where
  "goToDeck deal g userId =
     (if playerTurn (state g) \<noteq> userId then Inl NotYourTurn
      else if isWaitingResponse g then Inl WaitingResponse
      else ebind (otherPlayerId g userId) (\<lambda>w.
             setRoundWinner deal (g\<lparr> events := events g @ [TO_DECK userId] \<rparr>) w))"

text \<open>\<^verbatim>\<open>throwCard(userId, card)\<close>; the card is \<open>crd\<close> here (\<open>card\<close> is the cardinality of a
  set in HOL).\<close>
definition throwCard ::
    "'c Cards \<Rightarrow> 'c list \<times> 'c list \<Rightarrow> 'c Game \<Rightarrow> UserId \<Rightarrow> 'c \<Rightarrow> error + 'c Game" where
  "throwCard C deal g userId crd =
     (if playerTurn (state g) \<noteq> userId then Inl NotYourTurn
      else if isWaitingResponse g then Inl WaitingResponse
      else case cards (state g) userId of
             None \<Rightarrow> Inl TypeError
           | Some hand \<Rightarrow>
               if crd \<notin> set hand then Inl InvalidCard
               else
                 ebind (setNextTurnPlayer C
                          (g\<lparr> state := (state g)\<lparr>
                               cards := (cards (state g))(userId \<mapsto> filter (\<lambda>c. c \<noteq> crd) hand),
                               thrownCards := (thrownCards (state g))
                                                (userId \<mapsto> thrownOf g userId @ [crd]) \<rparr> \<rparr>))
                   (\<lambda>updatedGame.
                     withRoundWinnerValidation C deal
                       (updatedGame\<lparr> events := events g @
                           [THROW_CARD userId crd (playerTurn (state updatedGame))] \<rparr>)))"

text \<open>\<^verbatim>\<open>isValidEnvidoCall(call)\<close>.\<close>
definition isValidEnvidoCall :: "'c Game \<Rightarrow> EnvidoCall \<Rightarrow> bool" where
  "isValidEnvidoCall g call =
     (let cs = calls (envido (state g))
      in if length cs = 0 then True
         else (case last cs of
                 ENVIDO \<Rightarrow> call = ENVIDO \<and> length cs = 1
                            \<or> call = REAL_ENVIDO \<or> call = FALTA_ENVIDO
               | REAL_ENVIDO \<Rightarrow> call = FALTA_ENVIDO
               | FALTA_ENVIDO \<Rightarrow> False))"

text \<open>\<^verbatim>\<open>envido(userId, call)\<close>; the method is named \<open>callEnvido\<close> here because
  \<open>envido\<close> is the state's field. \<^verbatim>\<open>envido.firstCaller || userId\<close> keeps the first
  caller unless it is absent or the falsy id 0.\<close>
definition callEnvido :: "'c Game \<Rightarrow> UserId \<Rightarrow> EnvidoCall \<Rightarrow> error + 'c Game" where
  "callEnvido g userId call =
     (if playerTurn (state g) \<noteq> userId then Inl NotYourTurn
      else ebind (step g) (\<lambda>n.
        if n \<noteq> 1 then Inl InvalidStep
        else if \<not> isValidEnvidoCall g call then Inl InvalidEnvidoCall
        else
          let old = envido (state g);
              newEnvido = \<lparr> calls = calls old @ [call],
                            firstCaller = (case firstCaller old of
                                             None \<Rightarrow> Some userId
                                           | Some f \<Rightarrow> if f = 0 then Some userId else Some f),
                            lastCaller = Some userId, acceptedBy = None, accepted = None,
                            waitingResponse = True, envidoWinner = None,
                            playersPoints = None \<rparr>
          in ebind (otherPlayerId g userId) (\<lambda>opponent.
               Inr (g\<lparr> events := events g @ [ENVIDO_CALL call userId],
                       state := (state g)\<lparr> envido := newEnvido, playerTurn := opponent \<rparr> \<rparr>))))"

text \<open>The loop of \<^verbatim>\<open>getEnvidoPoints(winner)\<close> over \<^verbatim>\<open>envido.calls\<close>, with the running
  total \<open>pts\<close>.\<close>
fun envidoPointsLoop :: "'c Game \<Rightarrow> UserId \<Rightarrow> EnvidoCall list \<Rightarrow> jsval \<Rightarrow> error + jsval" where
  "envidoPointsLoop g w [] pts = Inr pts"
| "envidoPointsLoop g w (ENVIDO # cs) pts = envidoPointsLoop g w cs (js_add pts (Num 2))"
| "envidoPointsLoop g w (REAL_ENVIDO # cs) pts = envidoPointsLoop g w cs (js_add pts (Num 3))"
| "envidoPointsLoop g w (FALTA_ENVIDO # cs) pts =
     ebind (otherPlayerId g w) (\<lambda>other.
       let otherPoints = lookup (points (state g)) other
       in if js_lt otherPoints (Num 15)
          then envidoPointsLoop g w cs (js_add pts (Num MAX_POINTS))
          else envidoPointsLoop g w cs (js_add pts (js_sub (Num 30) otherPoints)))"

definition getEnvidoPoints :: "'c Game \<Rightarrow> UserId \<Rightarrow> error + jsval" where
  "getEnvidoPoints g w = envidoPointsLoop g w (calls (envido (state g))) (Num 0)"

text \<open>\<^verbatim>\<open>[...this.state.cards[id], ...this.state.thrownCards[id] || []]\<close>: spreading an
  absent hand is a TypeError.\<close>
definition allCardsOf :: "'c Game \<Rightarrow> UserId \<Rightarrow> error + 'c list" where
  "allCardsOf g i =
     (case cards (state g) i of None \<Rightarrow> Inl TypeError | Some hand \<Rightarrow> Inr (hand @ thrownOf g i))"

text \<open>\<^verbatim>\<open>analyzeEnvido(userId, accepted)\<close> returns the winner and the points awarded.
  On a decline the winner is \<^verbatim>\<open>envido.lastCaller!\<close>, kept optional here; were it
  absent, the object literal would get the key \<^verbatim>\<open>"undefined"\<close>, which no player id
  reads, so the model leaves that key out.\<close>
definition analyzeEnvido ::
    "'c Cards \<Rightarrow> 'c Game \<Rightarrow> UserId \<Rightarrow> bool \<Rightarrow> error + (UserId option \<times> UsersPoints)" where
  "analyzeEnvido C g userId acc =
     (if \<not> acc then
        Inr (lastCaller (envido (state g)),
             (case lastCaller (envido (state g)) of
                None \<Rightarrow> Map.empty
              | Some l \<Rightarrow> [l \<mapsto> Num (int (length (calls (envido (state g)))))])
             (userId \<mapsto> Num 0))
      else
        ebind (playerId g 0) (\<lambda>p0.
        ebind (allCardsOf g p0) (\<lambda>cs0.
        ebind (playerId g 1) (\<lambda>p1.
        ebind (allCardsOf g p1) (\<lambda>cs1.
          let player1EnvidoPoints = getEnvidoCardsValue C cs0;
              player2EnvidoPoints = getEnvidoCardsValue C cs1;
              w = (if player1EnvidoPoints = player2EnvidoPoints then firstPlayer (state g)
                   else if player1EnvidoPoints > player2EnvidoPoints then p0 else p1)
          in ebind (getEnvidoPoints g w) (\<lambda>pts.
             ebind (otherPlayerId g w) (\<lambda>loser.
               Inr (Some w, [w \<mapsto> pts, loser \<mapsto> Num 0]))))))))"

text \<open>\<^verbatim>\<open>answerEnvido(userId, accepted)\<close>.\<close>
definition answerEnvido :: "'c Cards \<Rightarrow> 'c Game \<Rightarrow> UserId \<Rightarrow> bool \<Rightarrow> error + 'c Game" where
  "answerEnvido C g userId acc =
     (if playerTurn (state g) \<noteq> userId then Inl NotYourTurn
      else ebind (step g) (\<lambda>n.
        if n \<noteq> 1 then Inl InvalidStep
        else if \<not> waitingResponse (envido (state g)) then Inl NotWaitingResponse
        else
          ebind (analyzeEnvido C g userId acc) (\<lambda>(w, pp).
          ebind (playerId g 0) (\<lambda>p0.
          ebind (playerId g 1) (\<lambda>p1.
            let old = envido (state g);
                newEnvido = \<lparr> calls = calls old, firstCaller = firstCaller old,
                              lastCaller = lastCaller old, acceptedBy = Some userId,
                              accepted = Some acc, waitingResponse = False,
                              envidoWinner = w, playersPoints = Some pp \<rparr>;
                pts = [p0 \<mapsto> js_add (lookup (points (state g)) p0) (lookup pp p0),
                       p1 \<mapsto> js_add (lookup (points (state g)) p1) (lookup pp p1)];
                envidoEvent = (if acc then ENVIDO_ACCEPTED userId pts
                               else ENVIDO_DECLINED userId pts)
            in case firstCaller newEnvido of
                 None \<Rightarrow> Inl UndefinedId
               | Some turn \<Rightarrow>
                   let game = g\<lparr> events := events g @ [envidoEvent],
                                 state := (state g)\<lparr> envido := newEnvido, playerTurn := turn,
                                                     points := pts \<rparr> \<rparr>
                   in ebind (withWinnerResult game) (\<lambda>r.
                        case r of Some gameWithWinnerAnalysis \<Rightarrow> Inr gameWithWinnerAnalysis
                                | None \<Rightarrow> Inr game))))))"

section \<open>Cards.ts, modelled from the spec\<close>

text \<open>Modelled from the spec: Cards.ts (the card type, \<^verbatim>\<open>getCardValue\<close>,
  \<^verbatim>\<open>getEnvidoCardsValue\<close>, \<^verbatim>\<open>getRoundWinner\<close>) is not among the sources. The theorems
  below hold for every implementation \<open>C\<close> of these functions; the instance defined here
  follows sections 3 and 4.1 of the spec and is used to run the aggregate on concrete
  games.\<close>

datatype Suit = ESPADA | BASTO | ORO | COPA

datatype Card = Card Suit nat

text \<open>Modelled from the spec: the Truco ranking, 1 of swords > 1 of clubs > 7 of swords >
  7 of coins > 3s > 2s > 1 of cups = 1 of coins > 12s > 11s > 10s > 7 of cups = 7 of clubs >
  6s > 5s > 4s.\<close>
fun cardTrucoValue :: "Card \<Rightarrow> int" where
  "cardTrucoValue (Card s r) =
     (if r = 1 \<and> s = ESPADA then 14 else if r = 1 \<and> s = BASTO then 13
      else if r = 7 \<and> s = ESPADA then 12 else if r = 7 \<and> s = ORO then 11
      else if r = 3 then 10 else if r = 2 then 9 else if r = 1 then 8
      else if r = 12 then 7 else if r = 11 then 6 else if r = 10 then 5
      else if r = 7 then 4 else if r = 6 then 3 else if r = 5 then 2 else 1)"

fun suitOf :: "Card \<Rightarrow> Suit" where
  "suitOf (Card s r) = s"

text \<open>Modelled from the spec: face cards 10, 11, 12 count 0 for envido, the others their
  face.\<close>
fun envidoRank :: "Card \<Rightarrow> int" where
  "envidoRank (Card s r) = (if r \<ge> 10 then 0 else int r)"

text \<open>The scores 20 + r1 + r2 of all pairs of cards that share a suit.\<close>
fun pairScores :: "Card list \<Rightarrow> int list" where
  "pairScores [] = []"
| "pairScores (c # cs) =
     map (\<lambda>d. 20 + envidoRank c + envidoRank d) (filter (\<lambda>d. suitOf d = suitOf c) cs)
     @ pairScores cs"

text \<open>Modelled from the spec: with two or more cards of one suit, 20 plus the two highest
  envido ranks of that suit; otherwise the highest single envido rank.\<close>
definition envidoValue :: "Card list \<Rightarrow> int" where
  "envidoValue cs =
     (case pairScores cs of
        [] \<Rightarrow> fold max (map envidoRank cs) 0
      | ps \<Rightarrow> fold max ps 0)"

datatype Trick = FirstWins | SecondWins | Parda

definition trick :: "Card \<Rightarrow> Card \<Rightarrow> Trick" where
  "trick c d = (if cardTrucoValue c > cardTrucoValue d then FirstWins
                else if cardTrucoValue c < cardTrucoValue d then SecondWins else Parda)"

text \<open>Modelled from the spec: best of three tricks, decided as soon as the outcome is
  determined (two tricks won, or a won trick and a drawn one); undecided otherwise.\<close>
fun decide :: "Trick list \<Rightarrow> Trick option" where
  "decide (r1 # r2 # rs) =
     (if r1 = Parda
      then (if r2 \<noteq> Parda then Some r2 else case rs of [] \<Rightarrow> None | r3 # _ \<Rightarrow> Some r3)
      else if r2 = Parda \<or> r2 = r1 then Some r1
      else case rs of [] \<Rightarrow> None | r3 # _ \<Rightarrow> if r3 = Parda then Some r1 else Some r3)"
| "decide _ = None"

definition roundWinner :: "UserId list \<Rightarrow> (UserId \<rightharpoonup> Card list) \<Rightarrow> UserId option" where
  "roundWinner ids thrown =
     (case ids of
        [a, b] \<Rightarrow>
          (case decide (map2 trick (case thrown a of None \<Rightarrow> [] | Some t \<Rightarrow> t)
                                   (case thrown b of None \<Rightarrow> [] | Some t \<Rightarrow> t)) of
             None \<Rightarrow> None
           | Some SecondWins \<Rightarrow> Some b
           | Some _ \<Rightarrow> Some a)
      | _ \<Rightarrow> None)"

text \<open>What \<^verbatim>\<open>getCardValue\<close> returns for \<^verbatim>\<open>undefined\<close> is not specified; this instance
  returns \<^verbatim>\<open>undefined\<close>.\<close>
definition spanishCards :: "Card Cards" where
  "spanishCards =
     \<lparr> getCardValue = (\<lambda>c. case c of None \<Rightarrow> Inr Undefined
                                    | Some c \<Rightarrow> Inr (Num (cardTrucoValue c))),
       getEnvidoCardsValue = envidoValue,
       getRoundWinner = roundWinner \<rparr>"

section \<open>Notions used to state the properties\<close>

text \<open>The points one call of the chain is worth when the envido is accepted, against a
  loser who has \<open>pl\<close> match points.\<close>
fun callPoints :: "int \<Rightarrow> EnvidoCall \<Rightarrow> int" where
  "callPoints pl ENVIDO = 2"
| "callPoints pl REAL_ENVIDO = 3"
| "callPoints pl FALTA_ENVIDO = (if pl < 15 then MAX_POINTS else 30 - pl)"

text \<open>\<open>newGame\<close> extends the event log of \<open>oldGame\<close> by at least one event, and
  \<^verbatim>\<open>newGame.getNewEvents(oldGame)\<close> is exactly what was appended.\<close>
definition appended :: "'c Game \<Rightarrow> 'c Game \<Rightarrow> bool" where
  "appended oldGame newGame \<longleftrightarrow>
     events newGame = events oldGame @ getNewEvents newGame oldGame \<and>
     getNewEvents newGame oldGame \<noteq> []"

text \<open>\<open>n\<close> calls of \<^verbatim>\<open>goToDeck\<close> in a row by the same player, each on the game the
  call before returned; the first error ends the run.\<close>
fun goToDeckTimes :: "nat \<Rightarrow> 'c list \<times> 'c list \<Rightarrow> 'c Game \<Rightarrow> UserId \<Rightarrow> error + 'c Game" where
  "goToDeckTimes 0 deal g userId = Inr g"
| "goToDeckTimes (Suc n) deal g userId =
     ebind (goToDeck deal g userId) (\<lambda>g'. goToDeckTimes n deal g' userId)"

text \<open>The games that arise from \<^verbatim>\<open>Game.new\<close> through the actions of the class
  (\<^verbatim>\<open>join\<close>, \<^verbatim>\<open>start\<close>, \<^verbatim>\<open>throwCard\<close>, \<^verbatim>\<open>envido\<close>, \<^verbatim>\<open>answerEnvido\<close>, \<^verbatim>\<open>goToDeck\<close>), with any
  users, arguments and deals. The other methods of the class that return a game are the
  helpers these actions call (\<^verbatim>\<open>copy\<close>, \<^verbatim>\<open>setNextTurnPlayer\<close>, \<^verbatim>\<open>withRoundWinnerValidation\<close>,
  \<^verbatim>\<open>setRoundWinner\<close>, \<^verbatim>\<open>withNextRoundOrWin\<close>, \<^verbatim>\<open>withWinnerResult\<close>).\<close>
inductive reachable :: "'c Cards \<Rightarrow> 'c Game \<Rightarrow> bool" for C :: "'c Cards" where
  by_new: "reachable C (new user)"
| by_join: "reachable C g \<Longrightarrow> reachable C (join g user)"
| by_start: "reachable C g \<Longrightarrow> start deal g = Inr g' \<Longrightarrow> reachable C g'"
| by_throwCard: "reachable C g \<Longrightarrow> throwCard C deal g userId crd = Inr g' \<Longrightarrow> reachable C g'"
| by_envido: "reachable C g \<Longrightarrow> callEnvido g userId c = Inr g' \<Longrightarrow> reachable C g'"
| by_answerEnvido:
    "reachable C g \<Longrightarrow> answerEnvido C g userId acc = Inr g' \<Longrightarrow> reachable C g'"
| by_goToDeck: "reachable C g \<Longrightarrow> goToDeck deal g userId = Inr g' \<Longrightarrow> reachable C g'"

text \<open>The three kinds of event that Game.ts declares for truco.\<close>
fun isTrucoEvent :: "'c GameEvent \<Rightarrow> bool" where
  "isTrucoEvent (TRUCO_CALL c u) = True"
| "isTrucoEvent (TRUCO_ACCEPT u c) = True"
| "isTrucoEvent (TRUCO_DECLINE u c) = True"
| "isTrucoEvent _ = False"

text \<open>From \<open>g\<close> to \<open>g'\<close>, \<^verbatim>\<open>trucoPoints\<close> is unchanged or back to 1, and no truco event has
  been added to the log.\<close>
definition trucoFree :: "'c Game \<Rightarrow> 'c Game \<Rightarrow> bool" where
  "trucoFree g g' \<longleftrightarrow>
     (trucoPoints (state g') = trucoPoints (state g) \<or> trucoPoints (state g') = 1) \<and>
     (\<forall>e \<in> set (events g'). isTrucoEvent e \<longrightarrow> e \<in> set (events g))"

text \<open>\<open>g\<close> with \<^verbatim>\<open>state.winner\<close> replaced by \<open>w\<close>.\<close>
definition setWinner :: "UserId option \<Rightarrow> 'c Game \<Rightarrow> 'c Game" where
  "setWinner w g = g\<lparr> state := (state g)\<lparr> winner := w \<rparr> \<rparr>"

text \<open>\<open>r'\<close> is what a transition returns on \<open>setWinner w g\<close> and \<open>r\<close> what it returns on \<open>g\<close>:
  the same error or game, or the same game but for the \<^verbatim>\<open>winner\<close> field \<open>w\<close> carried over
  from the input.\<close>
definition sameOrInherits ::
    "UserId option \<Rightarrow> error + 'c Game \<Rightarrow> error + 'c Game \<Rightarrow> bool" where
  "sameOrInherits w r' r \<longleftrightarrow> r' = r \<or> r' = map_sum id (setWinner w) r"

section \<open>Concrete games\<close>

definition alice :: SafeUser where
  "alice = \<lparr> user_id = 1, username = ''alice'' \<rparr>"

definition bob :: SafeUser where
  "bob = \<lparr> user_id = 2, username = ''bob'' \<rparr>"

text \<open>A deal: alice holds 7 and 6 of swords and 4 of cups, bob 5 and 4 of clubs and 1 of
  coins.\<close>
definition hands :: "Card list \<times> Card list" where
  "hands = ([Card ESPADA 7, Card ESPADA 6, Card COPA 4],
            [Card BASTO 5, Card BASTO 4, Card ORO 1])"

text \<open>alice creates a game and bob joins it.\<close>
definition lobby :: "Card Game" where
  "lobby = join (new alice) bob"

text \<open>The game \<open>start hands lobby\<close> returns (lemma \<open>start_lobby\<close>).\<close>
definition game1 :: "Card Game" where
  "game1 =
     \<lparr> game_id = 0, name = ''alice'', players = [alice, bob],
       state = \<lparr> started = True, firstPlayer = 1, playerTurn = 1, winner = None, roundNo = 1,
                 cards = [1 \<mapsto> fst hands, 2 \<mapsto> snd hands], thrownCards = Map.empty,
                 trucoPoints = 1, points = [1 \<mapsto> Num 0, 2 \<mapsto> Num 0],
                 envido = \<lparr> calls = [], firstCaller = None, lastCaller = None,
                            acceptedBy = None, accepted = None, waitingResponse = False,
                            envidoWinner = None, playersPoints = None \<rparr> \<rparr>,
       events = [START, NEXT_ROUND 1 [1 \<mapsto> fst hands, 2 \<mapsto> snd hands] 1] \<rparr>"

text \<open>The game \<open>callEnvido game1 1 ENVIDO\<close> returns (lemma \<open>envido_game1\<close>): alice has
  called envido and bob is to answer.\<close>
definition game2 :: "Card Game" where
  "game2 =
     game1\<lparr> events := events game1 @ [ENVIDO_CALL ENVIDO 1],
            state := (state game1)\<lparr>
              envido := \<lparr> calls = [ENVIDO], firstCaller = Some 1, lastCaller = Some 1,
                          acceptedBy = None, accepted = None, waitingResponse = True,
                          envidoWinner = None, playersPoints = None \<rparr>,
              playerTurn := 2 \<rparr> \<rparr>"

text \<open>\<open>game2\<close> with another chain of calls, the last one made by alice.\<close>
definition chainGame :: "EnvidoCall list \<Rightarrow> Card Game" where
  "chainGame cs = game2\<lparr> state := (state game2)\<lparr>
                     envido := (envido (state game2))\<lparr> calls := cs \<rparr> \<rparr> \<rparr>"

text \<open>\<open>game1\<close> with other match points, alice having \<open>p\<close> and bob \<open>q\<close>.\<close>
definition scoreGame :: "Card Game \<Rightarrow> int \<Rightarrow> int \<Rightarrow> Card Game" where
  "scoreGame g p q = g\<lparr> state := (state g)\<lparr> points := [1 \<mapsto> Num p, 2 \<mapsto> Num q] \<rparr> \<rparr>"

text \<open>Nine rounds from \<open>game1\<close>, each ended by the mano going to the deck.\<close>
definition nineRounds :: "error + Card Game" where
  "nineRounds =
     ebind (goToDeck hands game1 1) (\<lambda>g.
     ebind (goToDeck hands g 2) (\<lambda>g.
     ebind (goToDeck hands g 1) (\<lambda>g.
     ebind (goToDeck hands g 2) (\<lambda>g.
     ebind (goToDeck hands g 1) (\<lambda>g.
     ebind (goToDeck hands g 2) (\<lambda>g.
     ebind (goToDeck hands g 1) (\<lambda>g.
     ebind (goToDeck hands g 2) (\<lambda>g.
     goToDeck hands g 1))))))))"

text \<open>A game whose match is decided: bob has reached \<open>MAX_POINTS\<close> and \<open>winner\<close> is set.\<close>
definition decidedGame :: "Card Game" where
  "decidedGame =
     game1\<lparr> state := (state game1)\<lparr> points := [1 \<mapsto> Num 4, 2 \<mapsto> Num 5],
                                     winner := Some 1 \<rparr> \<rparr>"

text \<open>Both players have thrown their first card and alice, who won the trick, leads.\<close>
definition trick2Game :: "Card Game" where
  "trick2Game =
     game1\<lparr> state := (state game1)\<lparr>
              cards := [1 \<mapsto> [Card ESPADA 6, Card COPA 4], 2 \<mapsto> [Card BASTO 4, Card ORO 1]],
              thrownCards := [1 \<mapsto> [Card ESPADA 7], 2 \<mapsto> [Card BASTO 5]] \<rparr> \<rparr>"

text \<open>The game \<open>throwCard spanishCards hands game1 1 (Card ESPADA 7)\<close> returns (lemma
  \<open>throw_game1_game3\<close>): alice has thrown her 7 of swords and bob is to play.\<close>
definition game3 :: "Card Game" where
  "game3 =
     game1\<lparr> events := events game1 @ [THROW_CARD 1 (Card ESPADA 7) 2],
            state := (state game1)\<lparr>
              cards := (cards (state game1))(1 \<mapsto> [Card ESPADA 6, Card COPA 4]),
              thrownCards := [1 \<mapsto> [Card ESPADA 7]],
              playerTurn := 2 \<rparr> \<rparr>"

text \<open>The game \<open>callEnvido game3 2 ENVIDO\<close> returns (lemma \<open>envido_game3\<close>): bob has
  called envido after alice's throw and alice is to answer.\<close>
definition game4 :: "Card Game" where
  "game4 =
     game3\<lparr> events := events game3 @ [ENVIDO_CALL ENVIDO 2],
            state := (state game3)\<lparr>
              envido := \<lparr> calls = [ENVIDO], firstCaller = Some 2, lastCaller = Some 2,
                          acceptedBy = None, accepted = None, waitingResponse = True,
                          envidoWinner = None, playersPoints = None \<rparr>,
              playerTurn := 1 \<rparr> \<rparr>"

text \<open>Another deal: alice holds 7 and 6 of swords and 4 of cups, bob 7 and 6 of clubs and
  1 of coins.\<close>
definition tieHands :: "Card list \<times> Card list" where
  "tieHands = ([Card ESPADA 7, Card ESPADA 6, Card COPA 4],
               [Card BASTO 7, Card BASTO 6, Card ORO 1])"

text \<open>The second round of a game, dealt \<open>tieHands\<close>, after alice went to the deck in
  the first: bob is mano, has called envido, and alice is to answer (lemma
  \<open>tieGame_reached\<close>).\<close>
definition tieGame :: "Card Game" where
  "tieGame =
     \<lparr> game_id = 0, name = ''alice'', players = [alice, bob],
       state = \<lparr> started = True, firstPlayer = 2, playerTurn = 1, winner = None, roundNo = 2,
                 cards = [1 \<mapsto> fst tieHands, 2 \<mapsto> snd tieHands], thrownCards = Map.empty,
                 trucoPoints = 1, points = [1 \<mapsto> Num 0, 2 \<mapsto> Num 1],
                 envido = \<lparr> calls = [ENVIDO], firstCaller = Some 2, lastCaller = Some 2,
                            acceptedBy = None, accepted = None, waitingResponse = True,
                            envidoWinner = None, playersPoints = None \<rparr> \<rparr>,
       events = events game1 @
                [TO_DECK 1, ROUND_RESULT 2 [1 \<mapsto> Num 0, 2 \<mapsto> Num 1],
                 NEXT_ROUND 2 [1 \<mapsto> fst tieHands, 2 \<mapsto> snd tieHands] 2,
                 ENVIDO_CALL ENVIDO 2] \<rparr>"

section \<open>Basic facts\<close>

subsection \<open>The concrete games are reached through the transitions\<close>

lemma start_lobby: "start hands lobby = Inr game1"
  by (simp add: start_def lobby_def join_def new_def alice_def bob_def playerId_def ebind_def
                game1_def Let_def)

lemma envido_game1: "callEnvido game1 1 ENVIDO = Inr game2"
  by (simp add: callEnvido_def step_def playerId_def otherPlayerId_def thrownOf_def
                isValidEnvidoCall_def ebind_def Let_def game1_def game2_def alice_def bob_def)

lemma throw_game1_game3: "throwCard spanishCards hands game1 1 (Card ESPADA 7) = Inr game3"
  by (simp add: throwCard_def setNextTurnPlayer_def withRoundWinnerValidation_def
                thrownOf_def getPlayersIds_def spanishCards_def roundWinner_def hands_def
                isWaitingResponse_def playerId_def ebind_def Let_def
                game1_def game3_def alice_def bob_def)

lemma envido_game3: "callEnvido game3 2 ENVIDO = Inr game4"
  by (simp add: callEnvido_def step_def playerId_def otherPlayerId_def thrownOf_def
                isValidEnvidoCall_def ebind_def Let_def game1_def game3_def game4_def
                alice_def bob_def)

lemma tieGame_reached:
  "ebind (goToDeck tieHands game1 1) (\<lambda>g. callEnvido g 2 ENVIDO) = Inr tieGame"
  by (simp add: goToDeck_def setRoundWinner_def withNextRoundOrWin_def withWinnerResult_def
                isWaitingResponse_def lookup_def MAX_POINTS_def
                callEnvido_def step_def playerId_def otherPlayerId_def thrownOf_def
                isValidEnvidoCall_def ebind_def Let_def game1_def tieGame_def
                alice_def bob_def)

lemma ids_game1: "getPlayersIds game1 = [1, 2]"
  by (simp add: getPlayersIds_def game1_def alice_def bob_def)

lemma ids_game2: "getPlayersIds game2 = [1, 2]"
  by (simp add: getPlayersIds_def game2_def game1_def alice_def bob_def)

lemmas run_defs = ebind_def goToDeck_def playerId_def otherPlayerId_def isWaitingResponse_def
  setRoundWinner_def withNextRoundOrWin_def withWinnerResult_def lookup_def MAX_POINTS_def Let_def
  alice_def bob_def

lemmas chain_defs = chainGame_def game2_def game1_def alice_def bob_def

lemma throw_game1:
  "\<exists>g'. throwCard spanishCards hands game1 1 (Card ESPADA 7) = Inr g'"
  by (simp add: throwCard_def setNextTurnPlayer_def withRoundWinnerValidation_def
                thrownOf_def getPlayersIds_def spanishCards_def roundWinner_def hands_def
                game1_def run_defs)

lemma step_chainGame: "step (chainGame cs) = Inr 1"
  by (simp add: step_def playerId_def thrownOf_def ebind_def Let_def chain_defs)

lemma step_game2: "step game2 = Inr 1"
  by (simp add: step_def playerId_def thrownOf_def ebind_def Let_def game2_def game1_def)





lemma throw_game3:
  "\<exists>g'. throwCard spanishCards hands game3 2 (Card BASTO 5) = Inr g' \<and>
      cards (state g') 2 = Some [Card BASTO 4, Card ORO 1] \<and>
      thrownCards (state g') 1 = Some [Card ESPADA 7] \<and>
      thrownCards (state g') 2 = Some [Card BASTO 5] \<and>
      playerTurn (state g') = 1 \<and>
      events g' = events game3 @ [THROW_CARD 2 (Card BASTO 5) 1]"
  by (simp add: throwCard_def setNextTurnPlayer_def withRoundWinnerValidation_def
                thrownOf_def getPlayersIds_def spanishCards_def roundWinner_def hands_def
                isWaitingResponse_def playerId_def ebind_def Let_def lastOf_def
                trick_def game1_def game3_def alice_def bob_def)

lemma throw_trick2Game:
  "\<exists>g'. throwCard spanishCards hands trick2Game 1 (Card ESPADA 6) = Inr g' \<and>
      cards (state g') 1 = Some [Card COPA 4] \<and>
      thrownCards (state g') 1 = Some [Card ESPADA 7, Card ESPADA 6] \<and>
      playerTurn (state g') = 2 \<and>
      events g' = events trick2Game @ [THROW_CARD 1 (Card ESPADA 6) 2]"
  by (simp add: throwCard_def setNextTurnPlayer_def withRoundWinnerValidation_def
                thrownOf_def getPlayersIds_def spanishCards_def roundWinner_def hands_def
                isWaitingResponse_def playerId_def ebind_def Let_def lastOf_def
                trick_def game1_def trick2Game_def alice_def bob_def)

lemma nineRounds_result:
  "\<exists>g. nineRounds = Inr g \<and> getPlayersIds g = [1, 2] \<and>
        points (state g) 1 = Some (Num 4) \<and> points (state g) 2 = Some (Num 5) \<and>
        playerTurn (state g) = 1 \<and> \<not> isWaitingResponse g \<and>
        winner (state g) = Some 1 \<and> trucoPoints (state g) = 1"
  by (simp add: nineRounds_def game1_def run_defs getPlayersIds_def)

lemma reachable_game2: "reachable spanishCards game2"
proof -
  have "reachable spanishCards lobby" unfolding lobby_def by (intro by_join by_new)
  from by_start[OF this start_lobby] have "reachable spanishCards game1" .
  from by_envido[OF this envido_game1] show ?thesis .
qed

subsection \<open>Games with two players\<close>

lemma players_two:
  assumes "getPlayersIds g = [a, b]"
  shows "\<exists>pa pb. players g = [pa, pb] \<and> user_id pa = a \<and> user_id pb = b"
  using assms unfolding getPlayersIds_def by (cases "players g") auto

lemma playerId_two:
  assumes "getPlayersIds g = [a, b]"
  shows "playerId g 0 = Inr a" and "playerId g (Suc 0) = Inr b" and "playerId g 1 = Inr b"
  using players_two[OF assms] by (auto simp: playerId_def)

lemma otherPlayerId_two:
  assumes "getPlayersIds g = [a, b]" and "a \<noteq> b"
  shows "otherPlayerId g u = Inr (if u = a then b else a)"
  using players_two[OF assms(1)] assms(2) by (auto simp: otherPlayerId_def)

lemma step_two:
  assumes "getPlayersIds g = [a, b]"
  shows "step g = Inr (min (length (thrownOf g a)) (length (thrownOf g b)) + 1)"
  using playerId_two[OF assms] by (simp add: step_def ebind_def Let_def min_def)

lemma getPlayersIds_update [simp]:
  "getPlayersIds (g\<lparr> events := es \<rparr>) = getPlayersIds g"
  "getPlayersIds (g\<lparr> state := s \<rparr>) = getPlayersIds g"
  by (simp_all add: getPlayersIds_def)

text \<open>The only error the helpers raise themselves is the runtime's TypeError.\<close>

lemma playerId_error: "playerId g i = Inl e \<Longrightarrow> e = TypeError"
  by (simp add: playerId_def split: if_splits)

lemma otherPlayerId_error: "otherPlayerId g u = Inl e \<Longrightarrow> e = TypeError"
  by (simp add: otherPlayerId_def split: option.splits)

lemma step_error: "step g = Inl e \<Longrightarrow> e = TypeError"
  by (auto simp: step_def ebind_def Let_def split: sum.splits dest: playerId_error)

text \<open>With two players whose points are numbers, \<^verbatim>\<open>withWinnerResult\<close> names the first
  player of the list as soon as either has \<open>MAX_POINTS\<close>.\<close>

lemma withWinnerResult_two:
  assumes "getPlayersIds g = [a, b]"
    and "points (state g) a = Some (Num pa)" and "points (state g) b = Some (Num pb)"
  shows "withWinnerResult g =
           (if pa \<ge> 5 \<or> pb \<ge> 5
            then Inr (Some (g\<lparr> events := events g @ [RESULT a (points (state g))],
                              state := (state g)\<lparr> winner := Some a \<rparr> \<rparr>))
            else Inr None)"
  using playerId_two[OF assms(1)] assms(2,3)
  by (auto simp: withWinnerResult_def ebind_def lookup_def MAX_POINTS_def)

lemma withNextRoundOrWin_two:
  assumes "getPlayersIds g = [a, b]"
    and "points (state g) a = Some (Num pa)" and "points (state g) b = Some (Num pb)"
  shows "\<exists>g'. withNextRoundOrWin deal g = Inr g' \<and> points (state g') = points (state g)"
  using playerId_two[OF assms(1)]
  by (simp add: withNextRoundOrWin_def withWinnerResult_two[OF assms] ebind_def Let_def)

subsection \<open>The shape of the games two helpers return\<close>

lemma setNextTurnPlayer_result:
  assumes "setNextTurnPlayer C g = Inr g'"
  shows "\<exists>t. g' = g\<lparr> state := (state g)\<lparr> playerTurn := t \<rparr> \<rparr>"
  using assms
  by (auto simp: setNextTurnPlayer_def ebind_def Let_def split: sum.splits if_splits)

text \<open>With two players, the turn \<^verbatim>\<open>setNextTurnPlayer()\<close> sets, read off the two thrown
  piles \<open>pa\<close> and \<open>pb\<close>.\<close>

lemma setNextTurnPlayer_two:
  assumes players: "getPlayersIds g = [a, b]"
    and r: "setNextTurnPlayer C g = Inr g'"
    and pa: "pa = (case thrownCards (state g) a of None \<Rightarrow> [] | Some t \<Rightarrow> t)"
    and pb: "pb = (case thrownCards (state g) b of None \<Rightarrow> [] | Some t \<Rightarrow> t)"
  shows "(length pa \<noteq> length pb \<longrightarrow>
            playerTurn (state g') = (if length pa < length pb then a else b)) \<and>
         (length pa = length pb \<longrightarrow>
            (\<exists>va vb. getCardValue C (if pa = [] then None else Some (last pa)) = Inr va \<and>
                     getCardValue C (if pb = [] then None else Some (last pb)) = Inr vb \<and>
                     playerTurn (state g') =
                       (if js_seq va vb then (if playerTurn (state g) = a then b else a)
                        else if js_gt va vb then a else b)))"
proof (cases "length pa = length pb")
  case False
  with r show ?thesis
    using playerId_two[OF players]
    by (auto simp: setNextTurnPlayer_def ebind_def Let_def thrownOf_def pa pb)
next
  case True
  with r show ?thesis
    using playerId_two[OF players]
    by (auto simp: setNextTurnPlayer_def ebind_def Let_def thrownOf_def lastOf_def pa pb
             split: sum.splits)
qed

lemma withWinnerResult_result:
  assumes "withWinnerResult g = Inr (Some g')"
  shows "\<exists>w. g' = g\<lparr> events := events g @ [RESULT w (points (state g))],
                      state := (state g)\<lparr> winner := Some w \<rparr> \<rparr>"
  using assms
  by (auto simp: withWinnerResult_def ebind_def Let_def split: sum.splits if_splits)

section \<open>C1: the match winner\<close>

text \<open>
  C1 says that \<^verbatim>\<open>withWinnerResult()\<close> sets \<^verbatim>\<open>state.winner\<close> to the player with the higher
  points once a player has reached \<open>MAX_POINTS\<close>. The source compares the first player's
  points with themselves, so the first player of the list is named whatever the score.
  The run below plays nine rounds from a fresh game, each ended by the mano going to the
  deck: bob (id 2) reaches 5 points, alice (id 1) has 4, and the \<^verbatim>\<open>RESULT\<close> event and
  \<^verbatim>\<open>state.winner\<close> name alice.
\<close>

theorem withWinnerResult_first_player_wins:
  "ebind nineRounds (\<lambda>g. Inr (winner (state g), firstPlayer (state g),
       lookup (points (state g)) 1, lookup (points (state g)) 2, last (events g)))
   = Inr (Some 1, 1, Num 4, Num 5, RESULT 1 [1 \<mapsto> Num 4, 2 \<mapsto> Num 5])"
  by (simp add: nineRounds_def game1_def run_defs)

section \<open>C2: the match target and the end of the match\<close>

text \<open>Going to the deck in a game of two players with numeric points: the opponent gets
  \<^verbatim>\<open>trucoPoints\<close>. When that decides the match (or it was decided already), the game
  returned has \<^verbatim>\<open>winner\<close> set and is otherwise ready for the same action again.\<close>

lemma goToDeck_two:
  assumes players: "getPlayersIds g = [a, b]" and ab: "a \<noteq> b"
    and roles: "(u = a \<and> opp = b) \<or> (u = b \<and> opp = a)"
    and pu: "points (state g) u = Some (Num pu)" and po: "points (state g) opp = Some (Num po)"
    and turn: "playerTurn (state g) = u" and nw: "\<not> isWaitingResponse g"
  shows "\<exists>g'. goToDeck deal g u = Inr g' \<and>
               points (state g') opp = Some (Num (po + trucoPoints (state g))) \<and>
               points (state g') u = Some (Num pu) \<and>
               (pu \<ge> 5 \<or> po + trucoPoints (state g) \<ge> 5 \<longrightarrow>
                  winner (state g') \<noteq> None \<and> playerTurn (state g') = u \<and>
                  \<not> isWaitingResponse g' \<and> getPlayersIds g' = [a, b] \<and>
                  trucoPoints (state g') = trucoPoints (state g))"
proof -
  define g1 where "g1 = g\<lparr> events := events g @ [TO_DECK u, ROUND_RESULT opp
                             ((points (state g))(opp \<mapsto> Num (po + trucoPoints (state g))))],
                          state := (state g)\<lparr> points :=
                             (points (state g))(opp \<mapsto> Num (po + trucoPoints (state g))) \<rparr> \<rparr>"
  have uo: "u \<noteq> opp" using roles ab by auto
  have o: "otherPlayerId g u = Inr opp"
    using otherPlayerId_two[OF players ab, of u] roles ab by auto
  have p1: "getPlayersIds g1 = [a, b]" by (simp add: g1_def players)
  have qu: "points (state g1) u = Some (Num pu)" using uo pu by (simp add: g1_def)
  have qo: "points (state g1) opp = Some (Num (po + trucoPoints (state g)))"
    by (simp add: g1_def)
  have "\<exists>x y. points (state g1) a = Some (Num x) \<and> points (state g1) b = Some (Num y) \<and>
          (x \<ge> 5 \<or> y \<ge> 5 \<longleftrightarrow> pu \<ge> 5 \<or> po + trucoPoints (state g) \<ge> 5)"
    using roles qu qo by auto
  then obtain x y where
    xy: "points (state g1) a = Some (Num x)" "points (state g1) b = Some (Num y)"
    and ge: "x \<ge> 5 \<or> y \<ge> 5 \<longleftrightarrow> pu \<ge> 5 \<or> po + trucoPoints (state g) \<ge> 5"
    by blast
  have eq: "goToDeck deal g u = withNextRoundOrWin deal g1"
    using turn nw o po
    by (simp add: goToDeck_def ebind_def setRoundWinner_def Let_def lookup_def g1_def)
  from withNextRoundOrWin_two[OF p1 xy, of deal] obtain g' where
    g': "withNextRoundOrWin deal g1 = Inr g'" "points (state g') = points (state g1)" by blast
  have "winner (state g') \<noteq> None \<and> playerTurn (state g') = u \<and>
        \<not> isWaitingResponse g' \<and> getPlayersIds g' = [a, b] \<and>
        trucoPoints (state g') = trucoPoints (state g)"
    if "pu \<ge> 5 \<or> po + trucoPoints (state g) \<ge> 5"
  proof -
    from that ge have "x \<ge> 5 \<or> y \<ge> 5" by simp
    with g'(1) have "g' = g1\<lparr> events := events g1 @ [RESULT a (points (state g1))],
                              state := (state g1)\<lparr> winner := Some a \<rparr> \<rparr>"
      by (simp add: withNextRoundOrWin_def withWinnerResult_two[OF p1 xy] ebind_def)
    then show ?thesis
      using turn nw players by (simp add: g1_def isWaitingResponse_def)
  qed
  with eq g' qu qo show ?thesis by simp
qed

text \<open>Once the match is decided, the player on turn can go to the deck any number of times:
  each call gives the opponent \<^verbatim>\<open>trucoPoints\<close> more.\<close>

lemma goToDeckTimes_two:
  assumes players: "getPlayersIds g = [a, b]" and ab: "a \<noteq> b"
    and roles: "(u = a \<and> opp = b) \<or> (u = b \<and> opp = a)"
    and pu: "points (state g) u = Some (Num pu)" and po: "points (state g) opp = Some (Num po)"
    and turn: "playerTurn (state g) = u" and nw: "\<not> isWaitingResponse g"
    and win: "winner (state g) \<noteq> None"
    and decided: "pu \<ge> 5 \<or> po \<ge> 5" and tp: "trucoPoints (state g) \<ge> 0"
  shows "\<exists>g'. goToDeckTimes n deal g u = Inr g' \<and>
               points (state g') opp = Some (Num (po + int n * trucoPoints (state g))) \<and>
               points (state g') u = Some (Num pu) \<and>
               winner (state g') \<noteq> None \<and> playerTurn (state g') = u"
  using players pu po turn nw win decided tp
proof (induction n arbitrary: g po)
  case 0
  then show ?case by simp
next
  case (Suc n)
  have d: "pu \<ge> 5 \<or> po + trucoPoints (state g) \<ge> 5" using Suc.prems(7,8) by auto
  from goToDeck_two[OF Suc.prems(1) ab roles Suc.prems(2,3,4,5), of deal] d
  obtain g1 where g1: "goToDeck deal g u = Inr g1"
    "points (state g1) opp = Some (Num (po + trucoPoints (state g)))"
    "points (state g1) u = Some (Num pu)"
    "winner (state g1) \<noteq> None" "playerTurn (state g1) = u"
    "\<not> isWaitingResponse g1" "getPlayersIds g1 = [a, b]"
    "trucoPoints (state g1) = trucoPoints (state g)"
    by auto
  have t1: "trucoPoints (state g1) \<ge> 0" using g1(8) Suc.prems(8) by simp
  from Suc.IH[OF g1(7) g1(3) g1(2) g1(5) g1(6) g1(4) d t1]
  obtain g' where g': "goToDeckTimes n deal g1 u = Inr g'"
    "points (state g') opp =
       Some (Num (po + trucoPoints (state g) + int n * trucoPoints (state g1)))"
    "points (state g') u = Some (Num pu)"
    "winner (state g') \<noteq> None" "playerTurn (state g') = u"
    by auto
  have "po + trucoPoints (state g) + int n * trucoPoints (state g1) =
        po + int (Suc n) * trucoPoints (state g)"
    by (simp add: g1(8) algebra_simps)
  with g' g1(1) show ?case by (simp add: ebind_def)
qed

subsection \<open>No transition reads \<^verbatim>\<open>winner\<close>\<close>

lemma setWinner_simps [simp]:
  "state (setWinner w g) = (state g)\<lparr> winner := w \<rparr>"
  "events (setWinner w g) = events g"
  "players (setWinner w g) = players g"
  by (simp_all add: setWinner_def)

lemma setWinner_state: "(setWinner w g)\<lparr> state := s \<rparr> = g\<lparr> state := s \<rparr>"
  by (simp add: setWinner_def)

lemma setWinner_events: "(setWinner w g)\<lparr> events := es \<rparr> = setWinner w (g\<lparr> events := es \<rparr>)"
  by (simp add: setWinner_def)

lemma helpers_setWinner [simp]:
  "playerId (setWinner w g) i = playerId g i"
  "otherPlayerId (setWinner w g) u = otherPlayerId g u"
  "thrownOf (setWinner w g) u = thrownOf g u"
  "getPlayersIds (setWinner w g) = getPlayersIds g"
  "isWaitingResponse (setWinner w g) = isWaitingResponse g"
  "isValidEnvidoCall (setWinner w g) c = isValidEnvidoCall g c"
  by (simp_all add: playerId_def otherPlayerId_def thrownOf_def getPlayersIds_def
                    isWaitingResponse_def isValidEnvidoCall_def)

lemma allCardsOf_setWinner [simp]: "allCardsOf (setWinner w g) u = allCardsOf g u"
  by (simp add: allCardsOf_def cong: option.case_cong)

lemma step_setWinner [simp]: "step (setWinner w g) = step g"
  by (simp add: step_def)

lemma withWinnerResult_setWinner: "withWinnerResult (setWinner w g) = withWinnerResult g"
  by (simp add: withWinnerResult_def setWinner_state setWinner_events cong: if_cong)

lemma withNextRoundOrWin_setWinner:
  "withNextRoundOrWin deal (setWinner w g) = withNextRoundOrWin deal g"
  unfolding withNextRoundOrWin_def withWinnerResult_setWinner
  by (simp add: setWinner_state setWinner_events cong: if_cong option.case_cong)

lemma setRoundWinner_setWinner:
  "setRoundWinner deal (setWinner w g) x = setRoundWinner deal g x"
proof -
  have "(setWinner w g)\<lparr> events := es, state := (state (setWinner w g))\<lparr> points := p \<rparr> \<rparr> =
        setWinner w (g\<lparr> events := es, state := (state g)\<lparr> points := p \<rparr> \<rparr>)" for es p
    by (simp add: setWinner_def)
  then show ?thesis
    by (simp add: setRoundWinner_def Let_def withNextRoundOrWin_setWinner del: setWinner_simps)
       (simp add: setWinner_def)
qed

lemma goToDeck_setWinner: "goToDeck deal (setWinner w g) u = goToDeck deal g u"
  by (simp add: goToDeck_def setWinner_events setRoundWinner_setWinner cong: if_cong)

lemma callEnvido_setWinner:
  "callEnvido (setWinner w g) u c = map_sum id (setWinner w) (callEnvido g u c)"
  by (cases "step g"; cases "otherPlayerId g u")
     (simp_all add: callEnvido_def ebind_def Let_def setWinner_state setWinner_events
        setWinner_def[of w "g\<lparr>events := es, state := s\<rparr>" for es s] cong: if_cong)

lemma setNextTurnPlayer_setWinner:
  "setNextTurnPlayer C (setWinner w g) = map_sum id (setWinner w) (setNextTurnPlayer C g)"
  by (cases "playerId g 0"; cases "playerId g 1";
      cases "getCardValue C (lastOf (thrownOf g (projr (playerId g 0))))";
      cases "getCardValue C (lastOf (thrownOf g (projr (playerId g 1))))")
     (simp_all add: setNextTurnPlayer_def ebind_def Let_def setWinner_state
        setWinner_def[of w "g\<lparr>state := s\<rparr>" for s] cong: if_cong)

lemma withRoundWinnerValidation_setWinner:
  "withRoundWinnerValidation C deal (setWinner w g) =
     (case getRoundWinner C (getPlayersIds g) (thrownCards (state g)) of
        None \<Rightarrow> Inr (setWinner w g)
      | Some x \<Rightarrow> withRoundWinnerValidation C deal g)"
  by (simp add: withRoundWinnerValidation_def setRoundWinner_setWinner split: option.splits)

lemma throwCard_setWinner:
  "sameOrInherits w (throwCard C deal (setWinner w g) u c) (throwCard C deal g u c)"
proof (cases "playerTurn (state g) \<noteq> u \<or> isWaitingResponse g")
  case True
  then show ?thesis by (auto simp: sameOrInherits_def throwCard_def)
next
  case False
  show ?thesis
  proof (cases "cards (state g) u")
    case None
    with False show ?thesis by (simp add: sameOrInherits_def throwCard_def)
  next
    case (Some hand)
    show ?thesis
    proof (cases "c \<in> set hand")
      case False
      with \<open>\<not> (playerTurn (state g) \<noteq> u \<or> isWaitingResponse g)\<close> Some
      show ?thesis by (simp add: sameOrInherits_def throwCard_def)
    next
      case True
      define moved where "moved = g\<lparr> state := (state g)\<lparr>
                  cards := (cards (state g))(u \<mapsto> filter (\<lambda>x. x \<noteq> c) hand),
                  thrownCards := (thrownCards (state g))(u \<mapsto> thrownOf g u @ [c]) \<rparr> \<rparr>"
      have m: "(setWinner w g)\<lparr> state := (state (setWinner w g))\<lparr>
                  cards := (cards (state (setWinner w g)))(u \<mapsto> filter (\<lambda>x. x \<noteq> c) hand),
                  thrownCards := (thrownCards (state (setWinner w g)))
                                   (u \<mapsto> thrownOf (setWinner w g) u @ [c]) \<rparr> \<rparr>
               = setWinner w moved"
        by (simp add: moved_def setWinner_def thrownOf_def)
      have l: "throwCard C deal (setWinner w g) u c =
                 ebind (setNextTurnPlayer C (setWinner w moved)) (\<lambda>updatedGame.
                   withRoundWinnerValidation C deal
                     (updatedGame\<lparr> events := events g @
                        [THROW_CARD u c (playerTurn (state updatedGame))] \<rparr>))"
        using \<open>\<not> (playerTurn (state g) \<noteq> u \<or> isWaitingResponse g)\<close> Some True
        unfolding throwCard_def m[symmetric] by simp
      have r: "throwCard C deal g u c =
                 ebind (setNextTurnPlayer C moved) (\<lambda>updatedGame.
                   withRoundWinnerValidation C deal
                     (updatedGame\<lparr> events := events g @
                        [THROW_CARD u c (playerTurn (state updatedGame))] \<rparr>))"
        using \<open>\<not> (playerTurn (state g) \<noteq> u \<or> isWaitingResponse g)\<close> Some True
        by (simp add: throwCard_def moved_def)
      show ?thesis
      proof (cases "setNextTurnPlayer C moved")
        case (Inl e)
        then show ?thesis
          by (simp add: l r setNextTurnPlayer_setWinner ebind_def sameOrInherits_def)
      next
        case (Inr ug)
        define thrown where
          "thrown = ug\<lparr> events := events g @ [THROW_CARD u c (playerTurn (state ug))] \<rparr>"
        have l': "throwCard C deal (setWinner w g) u c =
                    withRoundWinnerValidation C deal (setWinner w thrown)"
          by (simp add: l setNextTurnPlayer_setWinner Inr ebind_def setWinner_events thrown_def)
        have r': "throwCard C deal g u c = withRoundWinnerValidation C deal thrown"
          by (simp add: r Inr ebind_def thrown_def)
        show ?thesis
        proof (cases "getRoundWinner C (getPlayersIds thrown) (thrownCards (state thrown))")
          case None
          then show ?thesis
            by (simp add: l' r' withRoundWinnerValidation_setWinner sameOrInherits_def)
               (simp add: withRoundWinnerValidation_def)
        next
          case (Some x)
          then show ?thesis
            by (simp add: l' r' withRoundWinnerValidation_setWinner sameOrInherits_def)
        qed
      qed
    qed
  qed
qed

lemma envidoPointsLoop_setWinner [simp]:
  "envidoPointsLoop (setWinner w g) x cs acc = envidoPointsLoop g x cs acc"
  by (induction g x cs acc rule: envidoPointsLoop.induct)
     (simp_all add: ebind_def Let_def cong: sum.case_cong if_cong)

lemma analyzeEnvido_setWinner [simp]:
  "analyzeEnvido C (setWinner w g) u acc = analyzeEnvido C g u acc"
  by (simp add: analyzeEnvido_def getEnvidoPoints_def ebind_def Let_def
           cong: sum.case_cong option.case_cong if_cong)


lemma answerEnvido_setWinner:
  "sameOrInherits w (answerEnvido C (setWinner w g) u acc) (answerEnvido C g u acc)"
proof (cases "playerTurn (state g) = u \<and> step g = Inr 1 \<and> waitingResponse (envido (state g))")
  case False
  then show ?thesis
    by (cases "step g") (auto simp: answerEnvido_def ebind_def sameOrInherits_def)
next
  case pre: True
  show ?thesis
  proof (cases "analyzeEnvido C g u acc")
    case (Inl e)
    with pre show ?thesis by (simp add: answerEnvido_def ebind_def sameOrInherits_def)
  next
    case (Inr wp)
    obtain x pp where wp: "wp = (x, pp)" by (cases wp)
    show ?thesis
    proof (cases "playerId g 0")
      case (Inl e)
      with pre Inr wp show ?thesis by (simp add: answerEnvido_def ebind_def sameOrInherits_def)
    next
      case p0: (Inr p0)
      show ?thesis
      proof (cases "playerId g 1")
        case (Inl e)
        with pre Inr wp p0 show ?thesis
          by (simp add: answerEnvido_def ebind_def sameOrInherits_def)
      next
        case p1: (Inr p1)
        show ?thesis
        proof (cases "firstCaller (envido (state g))")
          case None
          with pre Inr wp p0 p1 show ?thesis
            by (simp add: answerEnvido_def ebind_def Let_def sameOrInherits_def)
        next
          case (Some t)
          define pts where
            "pts = [p0 \<mapsto> js_add (lookup (points (state g)) p0) (lookup pp p0),
                    p1 \<mapsto> js_add (lookup (points (state g)) p1) (lookup pp p1)]"
          define game where
            "game = g\<lparr> events := events g @
                       [if acc then ENVIDO_ACCEPTED u pts else ENVIDO_DECLINED u pts],
                     state := (state g)\<lparr>
                       envido := \<lparr> calls = calls (envido (state g)),
                                   firstCaller = firstCaller (envido (state g)),
                                   lastCaller = lastCaller (envido (state g)),
                                   acceptedBy = Some u, accepted = Some acc,
                                   waitingResponse = False, envidoWinner = x,
                                   playersPoints = Some pp \<rparr>,
                       playerTurn := t, points := pts \<rparr> \<rparr>"
          have r: "answerEnvido C g u acc =
                     ebind (withWinnerResult game)
                       (\<lambda>r. case r of Some h \<Rightarrow> Inr h | None \<Rightarrow> Inr game)"
            using pre Inr wp p0 p1 Some
            by (cases acc)
               (simp_all add: answerEnvido_def ebind_def Let_def game_def pts_def
                  split: sum.splits option.splits)
          have m: "setWinner w game =
                     g\<lparr> events := events g @
                       [if acc then ENVIDO_ACCEPTED u pts else ENVIDO_DECLINED u pts],
                     state := (state g)\<lparr>
                       winner := w,
                       envido := \<lparr> calls = calls (envido (state g)),
                                   firstCaller = firstCaller (envido (state g)),
                                   lastCaller = lastCaller (envido (state g)),
                                   acceptedBy = Some u, accepted = Some acc,
                                   waitingResponse = False, envidoWinner = x,
                                   playersPoints = Some pp \<rparr>,
                       playerTurn := t, points := pts \<rparr> \<rparr>"
            by (simp add: game_def setWinner_def)
          have l: "answerEnvido C (setWinner w g) u acc =
                     ebind (withWinnerResult (setWinner w game))
                       (\<lambda>r. case r of Some h \<Rightarrow> Inr h | None \<Rightarrow> Inr (setWinner w game))"
            unfolding m using pre Inr wp p0 p1 Some
            by (cases acc)
               (simp_all add: answerEnvido_def ebind_def Let_def pts_def setWinner_state
                  setWinner_events split: sum.splits option.splits)
          show ?thesis
          proof (cases "withWinnerResult game")
            case (Inl e)
            then show ?thesis
              by (simp add: l r withWinnerResult_setWinner ebind_def sameOrInherits_def)
          next
            case (Inr res)
            then show ?thesis
              by (cases res)
                 (simp_all add: l r withWinnerResult_setWinner ebind_def sameOrInherits_def)
          qed
        qed
      qed
    qed
  qed
qed

text \<open>
  C2 as the code has it. \<open>MAX_POINTS\<close> is 5. In a game of two players with numeric points,
  \<^verbatim>\<open>withWinnerResult()\<close> returns nothing exactly when both have fewer than 5 points, and
  returns a game with \<^verbatim>\<open>winner\<close> set (and the same points) exactly when one of them has 5
  or more. No transition reads \<^verbatim>\<open>winner\<close>: on a game with \<^verbatim>\<open>winner\<close> set, \<^verbatim>\<open>goToDeck\<close>,
  \<^verbatim>\<open>throwCard\<close>, \<^verbatim>\<open>envido\<close> and \<^verbatim>\<open>answerEnvido\<close> return what they return on the same game
  with any other \<^verbatim>\<open>winner\<close> (the game returned at most carrying the field over). So when
  \<^verbatim>\<open>winner\<close> is set, the player on turn can still go to the deck, which gives the opponent
  \<^verbatim>\<open>trucoPoints\<close> more points, and once a player has 5 points the game returned is again
  one in which \<^verbatim>\<open>winner\<close> is set and the same player is on turn. So, once a player has 5
  points and \<^verbatim>\<open>winner\<close> is set, \<open>n\<close> calls of \<^verbatim>\<open>goToDeck\<close> in a row by the player on turn
  are all accepted and leave the opponent with \<open>n\<close> times \<^verbatim>\<open>trucoPoints\<close> more points
  (\<^verbatim>\<open>trucoPoints\<close> not being negative): with \<^verbatim>\<open>trucoPoints\<close> 1, as in every round dealt,
  the points pass any bound.
\<close>

theorem match_target_and_no_finish_guard:
  assumes players: "getPlayersIds g = [a, b]" and ab: "a \<noteq> b"
    and roles: "(u = a \<and> opp = b) \<or> (u = b \<and> opp = a)"
    and pu: "points (state g) u = Some (Num pu)" and po: "points (state g) opp = Some (Num po)"
  shows "MAX_POINTS = 5 \<and>
         (withWinnerResult g = Inr None \<longleftrightarrow> pu < 5 \<and> po < 5) \<and>
         ((\<exists>g'. withWinnerResult g = Inr (Some g') \<and> winner (state g') \<noteq> None \<and>
                points (state g') = points (state g)) \<longleftrightarrow> pu \<ge> 5 \<or> po \<ge> 5) \<and>
         goToDeck deal (setWinner w g) userId = goToDeck deal g userId \<and>
         sameOrInherits w (throwCard C deal (setWinner w g) userId crd)
                          (throwCard C deal g userId crd) \<and>
         sameOrInherits w (callEnvido (setWinner w g) userId c) (callEnvido g userId c) \<and>
         sameOrInherits w (answerEnvido C (setWinner w g) userId acc)
                          (answerEnvido C g userId acc) \<and>
         (\<forall>x. winner (state g) = Some x \<and>
              playerTurn (state g) = u \<and> \<not> isWaitingResponse g \<longrightarrow>
              (\<exists>g'. goToDeck deal g u = Inr g' \<and>
                    points (state g') opp = Some (Num (po + trucoPoints (state g))) \<and>
                    points (state g') u = Some (Num pu) \<and>
                    (pu \<ge> 5 \<or> po + trucoPoints (state g) \<ge> 5 \<longrightarrow>
                       winner (state g') \<noteq> None \<and> playerTurn (state g') = u \<and>
                       \<not> isWaitingResponse g' \<and> getPlayersIds g' = [a, b] \<and>
                       trucoPoints (state g') = trucoPoints (state g)))) \<and>
         (\<forall>x n. winner (state g) = Some x \<and>
              playerTurn (state g) = u \<and> \<not> isWaitingResponse g \<and>
              (pu \<ge> 5 \<or> po \<ge> 5) \<and> trucoPoints (state g) \<ge> 0 \<longrightarrow>
              (\<exists>g'. goToDeckTimes n deal g u = Inr g' \<and>
                    points (state g') opp = Some (Num (po + int n * trucoPoints (state g))) \<and>
                    points (state g') u = Some (Num pu) \<and>
                    winner (state g') \<noteq> None \<and> playerTurn (state g') = u))"
proof (intro conjI allI impI)
  have "\<exists>x y. points (state g) a = Some (Num x) \<and> points (state g) b = Some (Num y) \<and>
          (x < 5 \<and> y < 5 \<longleftrightarrow> pu < 5 \<and> po < 5)"
    using roles pu po by auto
  then obtain x y where xy: "points (state g) a = Some (Num x)" "points (state g) b = Some (Num y)"
    and lt: "x < 5 \<and> y < 5 \<longleftrightarrow> pu < 5 \<and> po < 5" by blast
  show "MAX_POINTS = 5" by (simp add: MAX_POINTS_def)
  show "withWinnerResult g = Inr None \<longleftrightarrow> pu < 5 \<and> po < 5"
    using lt by (auto simp: withWinnerResult_two[OF players xy])
  show "(\<exists>g'. withWinnerResult g = Inr (Some g') \<and> winner (state g') \<noteq> None \<and>
                points (state g') = points (state g)) \<longleftrightarrow> pu \<ge> 5 \<or> po \<ge> 5"
    using lt by (auto simp: withWinnerResult_two[OF players xy])
  show "goToDeck deal (setWinner w g) userId = goToDeck deal g userId"
    by (rule goToDeck_setWinner)
  show "sameOrInherits w (throwCard C deal (setWinner w g) userId crd)
                         (throwCard C deal g userId crd)"
    by (rule throwCard_setWinner)
  show "sameOrInherits w (callEnvido (setWinner w g) userId c) (callEnvido g userId c)"
    by (simp add: sameOrInherits_def callEnvido_setWinner)
  show "sameOrInherits w (answerEnvido C (setWinner w g) userId acc)
                         (answerEnvido C g userId acc)"
    by (rule answerEnvido_setWinner)
next
  fix x
  assume h: "winner (state g) = Some x \<and> playerTurn (state g) = u \<and> \<not> isWaitingResponse g"
  then show "\<exists>g'. goToDeck deal g u = Inr g' \<and>
                    points (state g') opp = Some (Num (po + trucoPoints (state g))) \<and>
                    points (state g') u = Some (Num pu) \<and>
                    (pu \<ge> 5 \<or> po + trucoPoints (state g) \<ge> 5 \<longrightarrow>
                       winner (state g') \<noteq> None \<and> playerTurn (state g') = u \<and>
                       \<not> isWaitingResponse g' \<and> getPlayersIds g' = [a, b] \<and>
                       trucoPoints (state g') = trucoPoints (state g))"
    using goToDeck_two[OF players ab roles pu po, of deal] by simp
next
  fix x n
  assume h: "winner (state g) = Some x \<and> playerTurn (state g) = u \<and> \<not> isWaitingResponse g \<and>
             (pu \<ge> 5 \<or> po \<ge> 5) \<and> trucoPoints (state g) \<ge> 0"
  then have w: "winner (state g) \<noteq> None" by simp
  from h show "\<exists>g'. goToDeckTimes n deal g u = Inr g' \<and>
                    points (state g') opp = Some (Num (po + int n * trucoPoints (state g))) \<and>
                    points (state g') u = Some (Num pu) \<and>
                    winner (state g') \<noteq> None \<and> playerTurn (state g') = u"
    using goToDeckTimes_two[OF players ab roles pu po _ _ w, of n deal] by simp
qed

text \<open>On \<open>decidedGame\<close> (alice 4, bob 5, \<^verbatim>\<open>winner\<close> set, alice on turn): alice goes to the
  deck and bob has 6 points; she goes to the deck 26 times and bob has 31.\<close>

theorem match_target_and_no_finish_guard_witness:
  "getPlayersIds decidedGame = [1, 2] \<and>
   points (state decidedGame) 1 = Some (Num 4) \<and> points (state decidedGame) 2 = Some (Num 5) \<and>
   winner (state decidedGame) = Some 1 \<and> playerTurn (state decidedGame) = 1 \<and>
   \<not> isWaitingResponse decidedGame \<and>
   withWinnerResult decidedGame \<noteq> Inr None \<and>
   withWinnerResult game1 = Inr None \<and>
   (\<exists>g'. goToDeck hands decidedGame 1 = Inr g' \<and>
         points (state g') 2 = Some (Num 6) \<and> points (state g') 1 = Some (Num 4) \<and>
         winner (state g') \<noteq> None \<and> playerTurn (state g') = 1 \<and> \<not> isWaitingResponse g') \<and>
   trucoPoints (state decidedGame) = 1 \<and>
   (\<exists>g'. goToDeckTimes 26 hands decidedGame 1 = Inr g' \<and>
         points (state g') 2 = Some (Num 31) \<and> points (state g') 1 = Some (Num 4) \<and>
         winner (state g') \<noteq> None \<and> playerTurn (state g') = 1)"
proof -
  have i: "getPlayersIds decidedGame = [1, 2]"
    by (simp add: decidedGame_def ids_game1)
  have h: "points (state decidedGame) 1 = Some (Num 4)" "points (state decidedGame) 2 = Some (Num 5)"
    "winner (state decidedGame) = Some 1" "playerTurn (state decidedGame) = 1"
    "\<not> isWaitingResponse decidedGame" "trucoPoints (state decidedGame) = 1"
    by (simp_all add: decidedGame_def game1_def isWaitingResponse_def)
  have k: "points (state game1) 1 = Some (Num 0)" "points (state game1) 2 = Some (Num 0)"
    by (simp_all add: game1_def)
  have r: "(1::int) = 1 \<and> (2::int) = 2 \<or> (1::int) = 2 \<and> (2::int) = 1" by simp
  have d: "(1::int) \<noteq> 2" by simp
  note t = match_target_and_no_finish_guard[OF i d r h(1) h(2),
      of hands None 1 spanishCards "Card ESPADA 7" ENVIDO False]
  note s = match_target_and_no_finish_guard[OF ids_game1 d r k(1) k(2),
      of hands None 1 spanishCards "Card ESPADA 7" ENVIDO False]
  have a: "withWinnerResult decidedGame \<noteq> Inr None" using t by simp
  have b: "withWinnerResult game1 = Inr None" using s by simp
  have c: "\<exists>g'. goToDeck hands decidedGame 1 = Inr g' \<and>
         points (state g') 2 = Some (Num 6) \<and> points (state g') 1 = Some (Num 4) \<and>
         winner (state g') \<noteq> None \<and> playerTurn (state g') = 1 \<and> \<not> isWaitingResponse g'"
    using t h by auto
  have e: "\<exists>g'. goToDeckTimes 26 hands decidedGame 1 = Inr g' \<and>
         points (state g') 2 = Some (Num 31) \<and> points (state g') 1 = Some (Num 4) \<and>
         winner (state g') \<noteq> None \<and> playerTurn (state g') = 1"
    using conjunct2[OF conjunct2[OF conjunct2[OF conjunct2[OF conjunct2[OF conjunct2[OF
            conjunct2[OF conjunct2[OF t]]]]]]], rule_format, of 1 26] h
    by simp
  from i h a b c e show ?thesis by simp
qed

text \<open>
  C2 as stated fails. After nine rounds bob has 5 points, alice 4, and \<^verbatim>\<open>winner\<close> is set
  (the target is 5, not 15); alice, still on turn, goes to the deck once more: the call
  is accepted and bob's points change from 5 to 6. After 26 such calls bob has 31 points,
  more than 30.
\<close>

theorem match_target_counterexample:
  "ebind nineRounds (\<lambda>g. Inr (winner (state g), lookup (points (state g)) 1,
                               lookup (points (state g)) 2))
     = Inr (Some 1, Num 4, Num 5) \<and>
   ebind nineRounds (\<lambda>g. ebind (goToDeck hands g 1) (\<lambda>g'.
       Inr (lookup (points (state g')) 1, lookup (points (state g')) 2)))
     = Inr (Num 4, Num 6) \<and>
   ebind nineRounds (\<lambda>g. ebind (goToDeckTimes 26 hands g 1) (\<lambda>g'.
       Inr (lookup (points (state g')) 1, lookup (points (state g')) 2)))
     = Inr (Num 4, Num 31)"
proof -
  have one: "ebind nineRounds (\<lambda>g. Inr (winner (state g), lookup (points (state g)) 1,
                               lookup (points (state g)) 2))
     = Inr (Some 1, Num 4, Num 5)"
    by (simp add: nineRounds_def game1_def run_defs)
  have two: "ebind nineRounds (\<lambda>g. ebind (goToDeck hands g 1) (\<lambda>g'.
       Inr (lookup (points (state g')) 1, lookup (points (state g')) 2)))
     = Inr (Num 4, Num 6)"
    by (simp add: nineRounds_def game1_def run_defs)
  from nineRounds_result obtain g where g: "nineRounds = Inr g" "getPlayersIds g = [1, 2]"
    "points (state g) 1 = Some (Num 4)" "points (state g) 2 = Some (Num 5)"
    "playerTurn (state g) = 1" "\<not> isWaitingResponse g"
    "winner (state g) = Some 1" "trucoPoints (state g) = 1"
    by (elim exE conjE)
  have r: "(1::int) = 1 \<and> (2::int) = 2 \<or> (1::int) = 2 \<and> (2::int) = 1" by simp
  have d: "(1::int) \<noteq> 2" by simp
  have w: "winner (state g) \<noteq> None" using g(7) by simp
  have dec: "(4::int) \<ge> 5 \<or> (5::int) \<ge> 5" by simp
  have tp: "trucoPoints (state g) \<ge> 0" using g(8) by simp
  from goToDeckTimes_two[OF g(2) d r g(3) g(4) g(5) g(6) w dec tp, of 26 hands]
  obtain g' where g': "goToDeckTimes 26 hands g 1 = Inr g'"
    "points (state g') 2 = Some (Num (5 + int 26 * trucoPoints (state g)))"
    "points (state g') 1 = Some (Num 4)"
    by (elim exE conjE)
  have three: "ebind nineRounds (\<lambda>g. ebind (goToDeckTimes 26 hands g 1) (\<lambda>g'.
       Inr (lookup (points (state g')) 1, lookup (points (state g')) 2)))
     = Inr (Num 4, Num 31)"
    by (simp add: g(1) g' g(8) ebind_def lookup_def)
  from one two three show ?thesis by (intro conjI)
qed

section \<open>C3: accepting a truco call\<close>

text \<open>What each helper and action does to \<^verbatim>\<open>trucoPoints\<close> and to the truco events of the
  log.\<close>

lemma trucoFree_refl: "trucoFree g g"
  by (simp add: trucoFree_def)

lemma trucoFree_trans: "trucoFree g h \<Longrightarrow> trucoFree h k \<Longrightarrow> trucoFree g k"
  by (auto simp: trucoFree_def)

lemma withWinnerResult_trucoPoints:
  assumes "withWinnerResult g = Inr (Some g')"
  shows "trucoPoints (state g') = trucoPoints (state g)"
    and "\<forall>e \<in> set (events g'). isTrucoEvent e \<longrightarrow> e \<in> set (events g)"
  using withWinnerResult_result[OF assms] by auto

lemma withNextRoundOrWin_trucoFree:
  assumes "withNextRoundOrWin deal g = Inr g'"
  shows "trucoFree g g'"
proof (cases "withWinnerResult g")
  case (Inl e)
  with assms show ?thesis by (simp add: withNextRoundOrWin_def ebind_def)
next
  case (Inr r)
  show ?thesis
  proof (cases r)
    case None
    with Inr assms show ?thesis
      by (auto simp: withNextRoundOrWin_def ebind_def Let_def trucoFree_def split: sum.splits)
  next
    case (Some h)
    with Inr assms have "h = g'" by (simp add: withNextRoundOrWin_def ebind_def)
    with withWinnerResult_trucoPoints[of g g'] Inr Some show ?thesis
      by (simp add: trucoFree_def)
  qed
qed

lemma setRoundWinner_trucoFree:
  assumes "setRoundWinner deal g w = Inr g'"
  shows "trucoFree g g'"
proof -
  define g1 where "g1 = g\<lparr> events := events g @ [ROUND_RESULT w
                       ((points (state g))(w \<mapsto> js_add (lookup (points (state g)) w)
                                                   (Num (trucoPoints (state g)))))],
                     state := (state g)\<lparr> points :=
                       (points (state g))(w \<mapsto> js_add (lookup (points (state g)) w)
                                                   (Num (trucoPoints (state g)))) \<rparr> \<rparr>"
  have "withNextRoundOrWin deal g1 = Inr g'"
    using assms by (simp add: setRoundWinner_def Let_def g1_def)
  from withNextRoundOrWin_trucoFree[OF this] have "trucoFree g1 g'" .
  moreover have "trucoFree g g1" by (simp add: trucoFree_def g1_def)
  ultimately show ?thesis by (rule trucoFree_trans[rotated])
qed

lemma goToDeck_trucoFree:
  assumes "goToDeck deal g userId = Inr g'"
  shows "trucoFree g g'"
proof -
  from assms obtain w where
    "setRoundWinner deal (g\<lparr> events := events g @ [TO_DECK userId] \<rparr>) w = Inr g'"
    by (auto simp: goToDeck_def ebind_def split: if_splits sum.splits)
  from setRoundWinner_trucoFree[OF this]
  have "trucoFree (g\<lparr> events := events g @ [TO_DECK userId] \<rparr>) g'" .
  moreover have "trucoFree g (g\<lparr> events := events g @ [TO_DECK userId] \<rparr>)"
    by (simp add: trucoFree_def)
  ultimately show ?thesis by (rule trucoFree_trans[rotated])
qed

lemma withRoundWinnerValidation_trucoFree:
  assumes "withRoundWinnerValidation C deal g = Inr g'"
  shows "trucoFree g g'"
  using assms setRoundWinner_trucoFree[of deal g _ g']
  by (auto simp: withRoundWinnerValidation_def trucoFree_refl split: option.splits)

lemma throwCard_trucoFree:
  assumes "throwCard C deal g userId crd = Inr g'"
  shows "trucoFree g g'"
proof -
  from assms obtain hand where hand: "cards (state g) userId = Some hand" "crd \<in> set hand"
    by (auto simp: throwCard_def split: if_splits option.splits)
  define moved where "moved = g\<lparr> state := (state g)\<lparr>
                        cards := (cards (state g))(userId \<mapsto> filter (\<lambda>c. c \<noteq> crd) hand),
                        thrownCards := (thrownCards (state g))
                                         (userId \<mapsto> thrownOf g userId @ [crd]) \<rparr> \<rparr>"
  from assms hand obtain updatedGame where
    u: "setNextTurnPlayer C moved = Inr updatedGame"
    and v: "withRoundWinnerValidation C deal
             (updatedGame\<lparr> events := events g @
                [THROW_CARD userId crd (playerTurn (state updatedGame))] \<rparr>) = Inr g'"
    by (auto simp: throwCard_def ebind_def moved_def split: if_splits sum.splits)
  from setNextTurnPlayer_result[OF u] obtain t where
    t: "updatedGame = moved\<lparr> state := (state moved)\<lparr> playerTurn := t \<rparr> \<rparr>" by blast
  have "trucoFree g (updatedGame\<lparr> events := events g @
                [THROW_CARD userId crd (playerTurn (state updatedGame))] \<rparr>)"
    by (simp add: trucoFree_def t moved_def)
  with withRoundWinnerValidation_trucoFree[OF v] show ?thesis
    by (rule trucoFree_trans[rotated])
qed

lemma start_trucoFree:
  assumes "start deal g = Inr g'"
  shows "trucoPoints (state g') = trucoPoints (state g)"
    and "\<forall>e \<in> set (events g'). isTrucoEvent e \<longrightarrow> e \<in> set (events g)"
  using assms by (auto simp: start_def ebind_def Let_def split: sum.splits)

lemma callEnvido_trucoFree:
  assumes "callEnvido g userId c = Inr g'"
  shows "trucoPoints (state g') = trucoPoints (state g)"
    and "\<forall>e \<in> set (events g'). isTrucoEvent e \<longrightarrow> e \<in> set (events g)"
  using assms
  by (auto simp: callEnvido_def ebind_def Let_def split: sum.splits if_splits)


lemma answerEnvido_trucoFree:
  assumes "answerEnvido C g userId acc = Inr g'"
  shows "trucoPoints (state g') = trucoPoints (state g)"
    and "\<forall>e \<in> set (events g'). isTrucoEvent e \<longrightarrow> e \<in> set (events g)"
  using assms
  by (auto simp: answerEnvido_def ebind_def Let_def
           split: if_splits sum.splits option.splits prod.splits
           dest!: withWinnerResult_result)

lemma reachable_trucoFree:
  assumes "reachable C g"
  shows "trucoPoints (state g) = 1 \<and> (\<forall>e \<in> set (events g). \<not> isTrucoEvent e)"
  using assms
proof (induction rule: reachable.induct)
  case (by_new user)
  show ?case by (simp add: new_def)
next
  case (by_join g user)
  then show ?case by (simp add: join_def)
next
  case (by_start g deal g')
  with start_trucoFree[OF by_start.hyps(2)] show ?case by auto
next
  case (by_throwCard g deal userId crd g')
  with throwCard_trucoFree[OF by_throwCard.hyps(2)] show ?case by (auto simp: trucoFree_def)
next
  case (by_envido g userId c g')
  with callEnvido_trucoFree[OF by_envido.hyps(2)] show ?case by auto
next
  case (by_answerEnvido g userId acc g')
  with answerEnvido_trucoFree[OF by_answerEnvido.hyps(2)] show ?case by auto
next
  case (by_goToDeck g deal userId g')
  with goToDeck_trucoFree[OF by_goToDeck.hyps(2)] show ?case by (auto simp: trucoFree_def)
qed

text \<open>
  C3 as the code has it. Game.ts declares \<^verbatim>\<open>TrucoCall\<close>, \<^verbatim>\<open>Truco\<close> and the three truco
  events, but \<^verbatim>\<open>GameState\<close> has no truco negotiation and the class has no action that
  calls or answers truco. \<^verbatim>\<open>trucoPoints\<close> is 1 in the game \<^verbatim>\<open>Game.new\<close> creates, whose log is
  empty; \<^verbatim>\<open>join\<close> changes neither; \<^verbatim>\<open>start\<close>, \<^verbatim>\<open>envido\<close> and \<^verbatim>\<open>answerEnvido\<close> (declining or
  accepting) leave \<^verbatim>\<open>trucoPoints\<close> as it is; \<^verbatim>\<open>throwCard\<close> and \<^verbatim>\<open>goToDeck\<close> leave it as it is
  or set it to 1 (when the next round is dealt); none of them adds a truco event to the
  log. Hence in every game reached from \<^verbatim>\<open>Game.new\<close> through these actions \<^verbatim>\<open>trucoPoints\<close>
  is 1 and the log has no truco event. The one response awaited is envido's:
  \<^verbatim>\<open>isWaitingResponse()\<close> is \<^verbatim>\<open>envido.waitingResponse\<close>.
\<close>

theorem no_truco_subprotocol:
  "trucoPoints (state (new user :: 'c Game)) = 1 \<and> events (new user :: 'c Game) = [] \<and>
   trucoPoints (state (join g user)) = trucoPoints (state g) \<and>
   events (join g user) = events g \<and>
   (\<forall>g'. start deal g = Inr g' \<or> callEnvido g userId c = Inr g' \<or>
         answerEnvido C g userId acc = Inr g' \<longrightarrow>
      trucoPoints (state g') = trucoPoints (state g) \<and>
      (\<forall>e \<in> set (events g'). isTrucoEvent e \<longrightarrow> e \<in> set (events g))) \<and>
   (\<forall>g'. throwCard C deal g userId crd = Inr g' \<or> goToDeck deal g userId = Inr g' \<longrightarrow>
      (trucoPoints (state g') = trucoPoints (state g) \<or> trucoPoints (state g') = 1) \<and>
      (\<forall>e \<in> set (events g'). isTrucoEvent e \<longrightarrow> e \<in> set (events g))) \<and>
   (reachable C g \<longrightarrow>
      trucoPoints (state g) = 1 \<and> (\<forall>e \<in> set (events g). \<not> isTrucoEvent e)) \<and>
   (isWaitingResponse g \<longleftrightarrow> waitingResponse (envido (state g)))"
proof (intro conjI allI impI)
  show "trucoPoints (state (new user :: 'c Game)) = 1" "events (new user :: 'c Game) = []"
    by (simp_all add: new_def)
  show "trucoPoints (state (join g user)) = trucoPoints (state g)"
       "events (join g user) = events g"
    by (simp_all add: join_def)
  show "isWaitingResponse g \<longleftrightarrow> waitingResponse (envido (state g))"
    by (simp add: isWaitingResponse_def)
next
  fix g'
  assume h: "start deal g = Inr g' \<or> callEnvido g userId c = Inr g' \<or>
             answerEnvido C g userId acc = Inr g'"
  from h show "trucoPoints (state g') = trucoPoints (state g)"
    using start_trucoFree(1) callEnvido_trucoFree(1) answerEnvido_trucoFree(1) by blast
  from h show "\<forall>e \<in> set (events g'). isTrucoEvent e \<longrightarrow> e \<in> set (events g)"
    using start_trucoFree(2) callEnvido_trucoFree(2) answerEnvido_trucoFree(2) by blast
next
  fix g'
  assume "throwCard C deal g userId crd = Inr g' \<or> goToDeck deal g userId = Inr g'"
  then have t: "trucoFree g g'"
    by (auto intro: throwCard_trucoFree goToDeck_trucoFree)
  from t show "trucoPoints (state g') = trucoPoints (state g) \<or> trucoPoints (state g') = 1"
    by (simp add: trucoFree_def)
  from t show "\<forall>e \<in> set (events g'). isTrucoEvent e \<longrightarrow> e \<in> set (events g)"
    by (simp add: trucoFree_def)
next
  assume r: "reachable C g"
  from reachable_trucoFree[OF r] show "trucoPoints (state g) = 1" by simp
  from reachable_trucoFree[OF r] show "\<forall>e \<in> set (events g). \<not> isTrucoEvent e" by simp
qed

text \<open>On \<open>game2\<close>, reached by \<^verbatim>\<open>new\<close>, \<^verbatim>\<open>join\<close>, \<^verbatim>\<open>start\<close> and \<^verbatim>\<open>envido\<close>, where bob is to answer
  alice's envido: \<^verbatim>\<open>trucoPoints\<close> is 1 before and after bob accepts. On \<open>game1\<close>: it is 1
  after alice goes to the deck.\<close>

theorem no_truco_subprotocol_witness:
  "reachable spanishCards game2 \<and> trucoPoints (state game2) = 1 \<and>
   \<not> (\<exists>e \<in> set (events game2). isTrucoEvent e) \<and>
   isWaitingResponse game2 \<and> waitingResponse (envido (state game2)) \<and>
   (\<exists>g'. answerEnvido spanishCards game2 2 True = Inr g' \<and> trucoPoints (state g') = 1 \<and>
         \<not> (\<exists>e \<in> set (events g'). isTrucoEvent e)) \<and>
   (\<exists>g'. goToDeck hands game1 1 = Inr g' \<and> trucoPoints (state g') = 1 \<and>
         \<not> (\<exists>e \<in> set (events g'). isTrucoEvent e))"
proof -
  note t2 = no_truco_subprotocol[of alice game2 hands 2 ENVIDO spanishCards True
              "Card BASTO 5"]
  note t1 = no_truco_subprotocol[of alice game1 hands 1 ENVIDO spanishCards True
              "Card ESPADA 7"]
  have r2: "trucoPoints (state game2) = 1 \<and> (\<forall>e \<in> set (events game2). \<not> isTrucoEvent e)"
    using t2 reachable_game2 by blast
  have e1: "\<forall>e \<in> set (events game1). \<not> isTrucoEvent e" by (simp add: game1_def)
  have p1: "trucoPoints (state game1) = 1" by (simp add: game1_def)
  have w: "isWaitingResponse game2" "waitingResponse (envido (state game2))"
    by (simp_all add: isWaitingResponse_def game2_def)
  have "\<exists>g'. answerEnvido spanishCards game2 2 True = Inr g'"
    by (simp add: answerEnvido_def analyzeEnvido_def allCardsOf_def getEnvidoPoints_def
                  step_def thrownOf_def spanishCards_def game2_def game1_def run_defs)
  then obtain ga where ga: "answerEnvido spanishCards game2 2 True = Inr ga" by blast
  have a: "trucoPoints (state ga) = trucoPoints (state game2) \<and>
           (\<forall>e \<in> set (events ga). isTrucoEvent e \<longrightarrow> e \<in> set (events game2))"
    using t2 ga by blast
  have a': "\<exists>g'. answerEnvido spanishCards game2 2 True = Inr g' \<and> trucoPoints (state g') = 1 \<and>
         \<not> (\<exists>e \<in> set (events g'). isTrucoEvent e)"
    using ga a r2 by (intro exI[of _ ga]) auto
  have "\<exists>g'. goToDeck hands game1 1 = Inr g'"
    by (simp add: game1_def run_defs)
  then obtain gd where gd: "goToDeck hands game1 1 = Inr gd" by blast
  have d: "(trucoPoints (state gd) = trucoPoints (state game1) \<or> trucoPoints (state gd) = 1) \<and>
           (\<forall>e \<in> set (events gd). isTrucoEvent e \<longrightarrow> e \<in> set (events game1))"
    using t1 gd by blast
  have d': "\<exists>g'. goToDeck hands game1 1 = Inr g' \<and> trucoPoints (state g') = 1 \<and>
         \<not> (\<exists>e \<in> set (events g'). isTrucoEvent e)"
    using gd d p1 e1 by (intro exI[of _ gd]) auto
  from reachable_game2 r2 w a' d' show ?thesis by simp
qed

text \<open>
  C3 as stated fails: no game reached from \<^verbatim>\<open>Game.new\<close> through the actions of the class
  has \<^verbatim>\<open>trucoPoints\<close> 2, 3 or 4, or a truco event in its log. The only call that can be
  pending is an envido: when bob accepts alice's on \<open>game2\<close>, \<^verbatim>\<open>trucoPoints\<close> stays 1, no
  response is awaited, and the event appended is \<^verbatim>\<open>ENVIDO_ACCEPTED\<close>.
\<close>

theorem truco_counterexample:
  "\<not> (\<exists>g. reachable spanishCards g \<and>
          (trucoPoints (state g) = 2 \<or> trucoPoints (state g) = 3 \<or>
           trucoPoints (state g) = 4 \<or> (\<exists>e \<in> set (events g). isTrucoEvent e))) \<and>
   ebind (answerEnvido spanishCards game2 2 True)
     (\<lambda>g. Inr (trucoPoints (state g), isWaitingResponse g, playerTurn (state g), last (events g)))
   = Inr (1, False, 1, ENVIDO_ACCEPTED 2 [1 \<mapsto> Num 2, 2 \<mapsto> Num 0])"
proof
  show "\<not> (\<exists>g. reachable spanishCards g \<and>
          (trucoPoints (state g) = 2 \<or> trucoPoints (state g) = 3 \<or>
           trucoPoints (state g) = 4 \<or> (\<exists>e \<in> set (events g). isTrucoEvent e)))"
    using reachable_trucoFree[of spanishCards] by fastforce
  show "ebind (answerEnvido spanishCards game2 2 True)
     (\<lambda>g. Inr (trucoPoints (state g), isWaitingResponse g, playerTurn (state g), last (events g)))
   = Inr (1, False, 1, ENVIDO_ACCEPTED 2 [1 \<mapsto> Num 2, 2 \<mapsto> Num 0])"
    by (simp add: answerEnvido_def analyzeEnvido_def allCardsOf_def getEnvidoPoints_def
                  step_def thrownOf_def spanishCards_def envidoValue_def hands_def
                  game2_def game1_def run_defs)
qed

section \<open>C4: the points of an accepted envido\<close>

text \<open>The loop of \<^verbatim>\<open>getEnvidoPoints\<close> adds the points of each call to the running total.\<close>

lemma envidoPointsLoop_sum:
  assumes "otherPlayerId g w = Inr l" and "points (state g) l = Some (Num pl)"
  shows "envidoPointsLoop g w cs (Num acc) = Inr (Num (acc + sum_list (map (callPoints pl) cs)))"
proof (induction cs arbitrary: acc)
  case Nil
  show ?case by simp
next
  case (Cons c cs)
  show ?case
    using assms Cons.IH by (cases c) (simp_all add: ebind_def lookup_def Let_def)
qed

lemma getEnvidoPoints_callPoints:
  assumes "otherPlayerId g w = Inr l" and "points (state g) l = Some (Num pl)"
  shows "getEnvidoPoints g w = Inr (Num (sum_list (map (callPoints pl) (calls (envido (state g))))))"
  using envidoPointsLoop_sum[OF assms, of "calls (envido (state g))" 0]
  by (simp add: getEnvidoPoints_def)

text \<open>
  C4 as the code has it: when the loser is found among the players and has \<open>pl\<close> match
  points, the points awarded to the winner of an accepted envido are the sum over
  \<^verbatim>\<open>envido.calls\<close> of 2 for \<^verbatim>\<open>ENVIDO\<close>, 3 for \<^verbatim>\<open>REAL_ENVIDO\<close> and, for \<^verbatim>\<open>FALTA_ENVIDO\<close>,
  \<open>MAX_POINTS\<close> = 5 when \<open>pl < 15\<close> and \<open>30 - pl\<close> otherwise.
\<close>

theorem getEnvidoPoints_sum:
  assumes "otherPlayerId g w = Inr l" and "points (state g) l = Some (Num pl)"
  shows "getEnvidoPoints g w =
           Inr (Num (sum_list (map (callPoints pl) (calls (envido (state g)))))) \<and>
         callPoints pl ENVIDO = 2 \<and> callPoints pl REAL_ENVIDO = 3 \<and>
         callPoints pl FALTA_ENVIDO = (if pl < 15 then 5 else 30 - pl)"
  using getEnvidoPoints_callPoints[OF assms] by (simp add: MAX_POINTS_def)

text \<open>A chain envido, envido, real envido, falta envido against a loser with 14 points is
  worth 2 + 2 + 3 + 5 = 12; a falta envido against a loser with 20 points is worth 10.\<close>

theorem getEnvidoPoints_sum_witness:
  "otherPlayerId (scoreGame (chainGame [ENVIDO, ENVIDO, REAL_ENVIDO, FALTA_ENVIDO]) 14 10) 2 = Inr 1 \<and>
   points (state (scoreGame (chainGame [ENVIDO, ENVIDO, REAL_ENVIDO, FALTA_ENVIDO]) 14 10)) 1
     = Some (Num 14) \<and>
   getEnvidoPoints (scoreGame (chainGame [ENVIDO, ENVIDO, REAL_ENVIDO, FALTA_ENVIDO]) 14 10) 2
     = Inr (Num 12) \<and>
   otherPlayerId (scoreGame (chainGame [FALTA_ENVIDO]) 10 20) 1 = Inr 2 \<and>
   points (state (scoreGame (chainGame [FALTA_ENVIDO]) 10 20)) 2 = Some (Num 20) \<and>
   getEnvidoPoints (scoreGame (chainGame [FALTA_ENVIDO]) 10 20) 1 = Inr (Num 10)"
proof -
  let ?g = "scoreGame (chainGame [ENVIDO, ENVIDO, REAL_ENVIDO, FALTA_ENVIDO]) 14 10"
  let ?h = "scoreGame (chainGame [FALTA_ENVIDO]) 10 20"
  have o: "otherPlayerId ?g 2 = Inr 1" "otherPlayerId ?h 1 = Inr 2"
    by (simp_all add: otherPlayerId_def scoreGame_def chain_defs)
  have p: "points (state ?g) 1 = Some (Num 14)" "points (state ?h) 2 = Some (Num 20)"
    by (simp_all add: scoreGame_def)
  have c: "calls (envido (state ?g)) = [ENVIDO, ENVIDO, REAL_ENVIDO, FALTA_ENVIDO]"
          "calls (envido (state ?h)) = [FALTA_ENVIDO]"
    by (simp_all add: scoreGame_def chainGame_def)
  show ?thesis
    using getEnvidoPoints_sum[OF o(1) p(1)] getEnvidoPoints_sum[OF o(2) p(2)] o p
    by (simp add: c MAX_POINTS_def)
qed

text \<open>
  C4 as stated fails: a falta envido accepted against a player with 14 points awards 5,
  not 16 (and not 5 - 14), and against a player with 3 points it awards 5, not 5 - 3.
\<close>

theorem getEnvidoPoints_counterexample:
  "getEnvidoPoints (scoreGame (chainGame [FALTA_ENVIDO]) 14 10) 2 = Inr (Num 5) \<and>
   getEnvidoPoints (scoreGame (chainGame [FALTA_ENVIDO]) 3 0) 2 = Inr (Num 5)"
  by (simp add: getEnvidoPoints_def scoreGame_def chainGame_def game2_def game1_def
                otherPlayerId_def ebind_def lookup_def Let_def MAX_POINTS_def alice_def bob_def)

section \<open>C5: when envido may be called\<close>

text \<open>
  C5 as the code has it: in a game of two players, \<^verbatim>\<open>envido(userId, call)\<close> fails with
  \<^verbatim>\<open>'Invalid step'\<close> exactly when it is the caller's turn and both players have thrown at
  least one card (that is, \<^verbatim>\<open>step()\<close> is not 1); while one of the two has not thrown
  yet, a valid call by the player on turn is accepted.
\<close>

theorem callEnvido_InvalidStep_iff:
  assumes "getPlayersIds g = [a, b]" and "a \<noteq> b"
  shows "(callEnvido g userId c = Inl InvalidStep \<longleftrightarrow>
            playerTurn (state g) = userId \<and> thrownOf g a \<noteq> [] \<and> thrownOf g b \<noteq> []) \<and>
         (playerTurn (state g) = userId \<and> (thrownOf g a = [] \<or> thrownOf g b = []) \<and>
          isValidEnvidoCall g c \<longrightarrow> (\<exists>g'. callEnvido g userId c = Inr g'))"
proof
  show "callEnvido g userId c = Inl InvalidStep \<longleftrightarrow>
            playerTurn (state g) = userId \<and> thrownOf g a \<noteq> [] \<and> thrownOf g b \<noteq> []"
    using step_two[OF assms(1)]
    by (auto simp: callEnvido_def ebind_def Let_def min_def split: sum.splits if_splits
             dest: otherPlayerId_error)
  show "playerTurn (state g) = userId \<and> (thrownOf g a = [] \<or> thrownOf g b = []) \<and>
          isValidEnvidoCall g c \<longrightarrow> (\<exists>g'. callEnvido g userId c = Inr g')"
    using step_two[OF assms(1)] otherPlayerId_two[OF assms, of userId]
    by (auto simp: callEnvido_def ebind_def Let_def)
qed

text \<open>After both first cards the call is rejected; before any card it is accepted.\<close>

theorem callEnvido_InvalidStep_iff_witness:
  "getPlayersIds trick2Game = [1, 2] \<and> playerTurn (state trick2Game) = 1 \<and>
   thrownOf trick2Game 1 = [Card ESPADA 7] \<and> thrownOf trick2Game 2 = [Card BASTO 5] \<and>
   callEnvido trick2Game 1 ENVIDO = Inl InvalidStep \<and>
   callEnvido trick2Game 2 ENVIDO \<noteq> Inl InvalidStep \<and>
   thrownOf game1 1 = [] \<and> isValidEnvidoCall game1 ENVIDO \<and>
   (\<exists>g'. callEnvido game1 1 ENVIDO = Inr g')"
proof -
  have i: "getPlayersIds trick2Game = [1, 2]"
    by (simp add: getPlayersIds_def trick2Game_def game1_def alice_def bob_def)
  have t: "playerTurn (state trick2Game) = 1" "thrownOf trick2Game 1 = [Card ESPADA 7]"
    "thrownOf trick2Game 2 = [Card BASTO 5]"
    by (simp_all add: trick2Game_def thrownOf_def game1_def)
  have u: "playerTurn (state game1) = 1" "thrownOf game1 1 = []" "isValidEnvidoCall game1 ENVIDO"
    by (simp_all add: game1_def thrownOf_def isValidEnvidoCall_def)
  show ?thesis
    using callEnvido_InvalidStep_iff[OF i, of 1 ENVIDO] callEnvido_InvalidStep_iff[OF i, of 2 ENVIDO]
      callEnvido_InvalidStep_iff[OF ids_game1, of 1 ENVIDO] i t u
    by simp
qed


text \<open>
  C5 as stated fails: alice throws her first card, and bob, who has not thrown yet, calls
  envido with one card on the table; \<^verbatim>\<open>step()\<close> is still 1 and the call is accepted.
\<close>

theorem callEnvido_after_throw_counterexample:
  "ebind (throwCard spanishCards hands game1 1 (Card ESPADA 7)) (\<lambda>g.
     ebind (callEnvido g 2 ENVIDO) (\<lambda>g'.
       Inr (thrownOf g 1, thrownOf g 2, step g, calls (envido (state g')),
            waitingResponse (envido (state g')))))
   = Inr ([Card ESPADA 7], [], Inr 1, [ENVIDO], True)"
  by (simp add: throwCard_def setNextTurnPlayer_def withRoundWinnerValidation_def
                callEnvido_def step_def isValidEnvidoCall_def thrownOf_def getPlayersIds_def
                spanishCards_def roundWinner_def hands_def game1_def run_defs)

section \<open>C6: answering a pending envido\<close>









section \<open>C7: the escalation chains of envido\<close>

text \<open>
  C7: \<^verbatim>\<open>isValidEnvidoCall\<close> accepts any call on an empty chain; after \<^verbatim>\<open>ENVIDO\<close> it accepts
  a second \<^verbatim>\<open>ENVIDO\<close> only when the chain is exactly one \<^verbatim>\<open>ENVIDO\<close>, and accepts
  \<^verbatim>\<open>REAL_ENVIDO\<close> and \<^verbatim>\<open>FALTA_ENVIDO\<close>; after \<^verbatim>\<open>REAL_ENVIDO\<close> it accepts \<^verbatim>\<open>FALTA_ENVIDO\<close>
  only; after \<^verbatim>\<open>FALTA_ENVIDO\<close> nothing. A call that is not accepted, made on the caller's
  turn at step 1, fails with \<^verbatim>\<open>'Invalid envido call'\<close>.
\<close>

theorem isValidEnvidoCall_chains:
  "(calls (envido (state g)) = [] \<longrightarrow> isValidEnvidoCall g c) \<and>
   (calls (envido (state g)) \<noteq> [] \<and> last (calls (envido (state g))) = ENVIDO \<longrightarrow>
      (isValidEnvidoCall g c \<longleftrightarrow>
         (c = ENVIDO \<and> calls (envido (state g)) = [ENVIDO])
         \<or> c = REAL_ENVIDO \<or> c = FALTA_ENVIDO)) \<and>
   (calls (envido (state g)) \<noteq> [] \<and> last (calls (envido (state g))) = REAL_ENVIDO \<longrightarrow>
      (isValidEnvidoCall g c \<longleftrightarrow> c = FALTA_ENVIDO)) \<and>
   (calls (envido (state g)) \<noteq> [] \<and> last (calls (envido (state g))) = FALTA_ENVIDO \<longrightarrow>
      \<not> isValidEnvidoCall g c) \<and>
   (playerTurn (state g) = userId \<and> step g = Inr 1 \<and> \<not> isValidEnvidoCall g c \<longrightarrow>
      callEnvido g userId c = Inl InvalidEnvidoCall)"
proof -
  have one: "length cs = 1 \<and> last cs = ENVIDO \<longleftrightarrow> cs = [ENVIDO]" for cs :: "EnvidoCall list"
    by (cases cs) auto
  show ?thesis
    using one[of "calls (envido (state g))"]
    by (auto simp: isValidEnvidoCall_def callEnvido_def ebind_def Let_def split: EnvidoCall.splits)
qed

theorem isValidEnvidoCall_chains_witness:
  "isValidEnvidoCall game1 FALTA_ENVIDO \<and>
   isValidEnvidoCall (chainGame [ENVIDO]) ENVIDO \<and>
   \<not> isValidEnvidoCall (chainGame [ENVIDO, ENVIDO]) ENVIDO \<and>
   isValidEnvidoCall (chainGame [ENVIDO, ENVIDO]) REAL_ENVIDO \<and>
   isValidEnvidoCall (chainGame [ENVIDO, REAL_ENVIDO]) FALTA_ENVIDO \<and>
   \<not> isValidEnvidoCall (chainGame [ENVIDO, REAL_ENVIDO]) ENVIDO \<and>
   \<not> isValidEnvidoCall (chainGame [REAL_ENVIDO, FALTA_ENVIDO]) FALTA_ENVIDO \<and>
   callEnvido (chainGame [REAL_ENVIDO, FALTA_ENVIDO]) 2 FALTA_ENVIDO = Inl InvalidEnvidoCall"
proof -
  have c: "calls (envido (state (chainGame cs))) = cs" for cs by (simp add: chainGame_def)
  have e: "calls (envido (state game1)) = []" by (simp add: game1_def)
  have t: "playerTurn (state (chainGame cs)) = 2" for cs by (simp add: chain_defs)
  show ?thesis
    using isValidEnvidoCall_chains[of game1 FALTA_ENVIDO 1]
      isValidEnvidoCall_chains[of "chainGame [ENVIDO]" ENVIDO 2]
      isValidEnvidoCall_chains[of "chainGame [ENVIDO, ENVIDO]" ENVIDO 2]
      isValidEnvidoCall_chains[of "chainGame [ENVIDO, ENVIDO]" REAL_ENVIDO 2]
      isValidEnvidoCall_chains[of "chainGame [ENVIDO, REAL_ENVIDO]" FALTA_ENVIDO 2]
      isValidEnvidoCall_chains[of "chainGame [ENVIDO, REAL_ENVIDO]" ENVIDO 2]
      isValidEnvidoCall_chains[of "chainGame [REAL_ENVIDO, FALTA_ENVIDO]" FALTA_ENVIDO 2]
    by (simp add: c e t step_chainGame)
qed

section \<open>C8: throwing a card\<close>

text \<open>
  C8 as the code has it. \<^verbatim>\<open>throwCard(userId, card)\<close> fails with \<^verbatim>\<open>'Not your turn'\<close> when
  \<^verbatim>\<open>playerTurn\<close> is another player; otherwise with \<^verbatim>\<open>'Waiting response'\<close> when an envido
  awaits an answer; otherwise, when \<^verbatim>\<open>userId\<close> has a hand, with \<^verbatim>\<open>'Invalid card'\<close> when no
  card of the hand equals the card. (A failure returns no game; the game it was called on
  is a value and stays as it is.) When it returns a game, the card was in the hand, and the
  game returned is the round resolution (\<^verbatim>\<open>withRoundWinnerValidation\<close>) of the game
  \<open>thrown\<close> in which the hand has lost every card equal to the thrown one, the card is
  the last of \<^verbatim>\<open>thrownCards[userId]\<close>, the turn is \<open>nextPlayer\<close> and \<^verbatim>\<open>THROW_CARD\<close>, naming
  \<open>nextPlayer\<close>, is the one event appended; when the round has no winner yet, the game
  returned is \<open>thrown\<close> itself. With two players \<open>a\<close> and \<open>b\<close> and their piles \<open>pa\<close> and
  \<open>pb\<close> after the throw, \<open>nextPlayer\<close> is the player with the shorter pile when the
  lengths differ; when they are equal (the trick is complete) it is the player whose last
  card has the higher \<^verbatim>\<open>getCardValue\<close>, \<open>a\<close> being chosen only on \<^verbatim>\<open>>\<close>, and the opponent
  of the thrower when the two values are \<^verbatim>\<open>===\<close>.
\<close>

theorem throwCard_contract:
  "(playerTurn (state g) \<noteq> userId \<longrightarrow> throwCard C deal g userId crd = Inl NotYourTurn) \<and>
   (playerTurn (state g) = userId \<and> isWaitingResponse g \<longrightarrow>
      throwCard C deal g userId crd = Inl WaitingResponse) \<and>
   (\<forall>hand. playerTurn (state g) = userId \<and> \<not> isWaitingResponse g \<and>
      cards (state g) userId = Some hand \<and> crd \<notin> set hand \<longrightarrow>
      throwCard C deal g userId crd = Inl InvalidCard) \<and>
   (\<forall>g'. throwCard C deal g userId crd = Inr g' \<longrightarrow>
      (\<exists>hand nextPlayer thrown.
         cards (state g) userId = Some hand \<and> crd \<in> set hand \<and>
         thrown = g\<lparr> events := events g @ [THROW_CARD userId crd nextPlayer],
                      state := (state g)\<lparr>
                        cards := (cards (state g))(userId \<mapsto> filter (\<lambda>c. c \<noteq> crd) hand),
                        thrownCards := (thrownCards (state g))
                          (userId \<mapsto> (case thrownCards (state g) userId of
                                         None \<Rightarrow> [] | Some t \<Rightarrow> t) @ [crd]),
                        playerTurn := nextPlayer \<rparr> \<rparr> \<and>
         (\<forall>a b pa pb. getPlayersIds g = [a, b] \<and>
            pa = (case thrownCards (state thrown) a of None \<Rightarrow> [] | Some t \<Rightarrow> t) \<and>
            pb = (case thrownCards (state thrown) b of None \<Rightarrow> [] | Some t \<Rightarrow> t) \<longrightarrow>
            (length pa \<noteq> length pb \<longrightarrow>
               nextPlayer = (if length pa < length pb then a else b)) \<and>
            (length pa = length pb \<longrightarrow>
               (\<exists>va vb. getCardValue C (if pa = [] then None else Some (last pa)) = Inr va \<and>
                        getCardValue C (if pb = [] then None else Some (last pb)) = Inr vb \<and>
                        nextPlayer = (if js_seq va vb then (if userId = a then b else a)
                                      else if js_gt va vb then a else b)))) \<and>
         withRoundWinnerValidation C deal thrown = Inr g' \<and>
         (getRoundWinner C (getPlayersIds g) (thrownCards (state thrown)) = None \<longrightarrow>
            g' = thrown)))"
proof (intro conjI allI impI)
  show "playerTurn (state g) \<noteq> userId \<Longrightarrow> throwCard C deal g userId crd = Inl NotYourTurn"
    by (simp add: throwCard_def)
  show "playerTurn (state g) = userId \<and> isWaitingResponse g \<Longrightarrow>
      throwCard C deal g userId crd = Inl WaitingResponse"
    by (simp add: throwCard_def)
  show "playerTurn (state g) = userId \<and> \<not> isWaitingResponse g \<and>
      cards (state g) userId = Some hand \<and> crd \<notin> set hand \<Longrightarrow>
      throwCard C deal g userId crd = Inl InvalidCard" for hand
    by (simp add: throwCard_def)
next
  fix g' assume a: "throwCard C deal g userId crd = Inr g'"
  then obtain hand where hand: "cards (state g) userId = Some hand" "crd \<in> set hand"
    by (auto simp: throwCard_def split: if_splits option.splits)
  from a have turn: "playerTurn (state g) = userId"
    by (auto simp: throwCard_def split: if_splits)
  define pile where
    "pile = (case thrownCards (state g) userId of None \<Rightarrow> [] | Some t \<Rightarrow> t) @ [crd]"
  define moved where "moved = g\<lparr> state := (state g)\<lparr>
                        cards := (cards (state g))(userId \<mapsto> filter (\<lambda>c. c \<noteq> crd) hand),
                        thrownCards := (thrownCards (state g))(userId \<mapsto> pile) \<rparr> \<rparr>"
  from a hand obtain updatedGame where
    u: "setNextTurnPlayer C moved = Inr updatedGame"
    and v: "withRoundWinnerValidation C deal
             (updatedGame\<lparr> events := events g @
                [THROW_CARD userId crd (playerTurn (state updatedGame))] \<rparr>) = Inr g'"
    by (auto simp: throwCard_def ebind_def moved_def pile_def thrownOf_def
             split: if_splits sum.splits)
  from setNextTurnPlayer_result[OF u] obtain t where
    t: "updatedGame = moved\<lparr> state := (state moved)\<lparr> playerTurn := t \<rparr> \<rparr>" by blast
  define thrown where "thrown = g\<lparr> events := events g @ [THROW_CARD userId crd t],
                      state := (state g)\<lparr>
                        cards := (cards (state g))(userId \<mapsto> filter (\<lambda>c. c \<noteq> crd) hand),
                        thrownCards := (thrownCards (state g))(userId \<mapsto> pile),
                        playerTurn := t \<rparr> \<rparr>"
  have eq: "updatedGame\<lparr> events := events g @
                [THROW_CARD userId crd (playerTurn (state updatedGame))] \<rparr> = thrown"
    by (simp add: t moved_def thrown_def)
  have v': "withRoundWinnerValidation C deal thrown = Inr g'" using v eq by simp
  have none: "getRoundWinner C (getPlayersIds g) (thrownCards (state thrown)) = None \<longrightarrow> g' = thrown"
  proof
    assume "getRoundWinner C (getPlayersIds g) (thrownCards (state thrown)) = None"
    moreover have "getPlayersIds thrown = getPlayersIds g" by (simp add: thrown_def)
    ultimately show "g' = thrown" using v' by (simp add: withRoundWinnerValidation_def)
  qed
  have tm: "thrownCards (state thrown) = thrownCards (state moved)"
    by (simp add: thrown_def moved_def)
  have pt: "playerTurn (state updatedGame) = t" by (simp add: t)
  have pm: "playerTurn (state moved) = userId" by (simp add: moved_def turn)
  have next_player:
    "(length pa \<noteq> length pb \<longrightarrow> t = (if length pa < length pb then a else b)) \<and>
     (length pa = length pb \<longrightarrow>
        (\<exists>va vb. getCardValue C (if pa = [] then None else Some (last pa)) = Inr va \<and>
                 getCardValue C (if pb = [] then None else Some (last pb)) = Inr vb \<and>
                 t = (if js_seq va vb then (if userId = a then b else a)
                      else if js_gt va vb then a else b)))"
    if h: "getPlayersIds g = [a, b] \<and>
        pa = (case thrownCards (state thrown) a of None \<Rightarrow> [] | Some t \<Rightarrow> t) \<and>
        pb = (case thrownCards (state thrown) b of None \<Rightarrow> [] | Some t \<Rightarrow> t)" for a b pa pb
  proof -
    have p: "getPlayersIds moved = [a, b]" using h by (simp add: moved_def)
    have pa: "pa = (case thrownCards (state moved) a of None \<Rightarrow> [] | Some t \<Rightarrow> t)"
      using h by (simp add: tm)
    have pb: "pb = (case thrownCards (state moved) b of None \<Rightarrow> [] | Some t \<Rightarrow> t)"
      using h by (simp add: tm)
    from setNextTurnPlayer_two[OF p u pa pb] show ?thesis
      unfolding pt pm .
  qed
  show "\<exists>hand nextPlayer thrown.
         cards (state g) userId = Some hand \<and> crd \<in> set hand \<and>
         thrown = g\<lparr> events := events g @ [THROW_CARD userId crd nextPlayer],
                      state := (state g)\<lparr>
                        cards := (cards (state g))(userId \<mapsto> filter (\<lambda>c. c \<noteq> crd) hand),
                        thrownCards := (thrownCards (state g))
                          (userId \<mapsto> (case thrownCards (state g) userId of
                                         None \<Rightarrow> [] | Some t \<Rightarrow> t) @ [crd]),
                        playerTurn := nextPlayer \<rparr> \<rparr> \<and>
         (\<forall>a b pa pb. getPlayersIds g = [a, b] \<and>
            pa = (case thrownCards (state thrown) a of None \<Rightarrow> [] | Some t \<Rightarrow> t) \<and>
            pb = (case thrownCards (state thrown) b of None \<Rightarrow> [] | Some t \<Rightarrow> t) \<longrightarrow>
            (length pa \<noteq> length pb \<longrightarrow>
               nextPlayer = (if length pa < length pb then a else b)) \<and>
            (length pa = length pb \<longrightarrow>
               (\<exists>va vb. getCardValue C (if pa = [] then None else Some (last pa)) = Inr va \<and>
                        getCardValue C (if pb = [] then None else Some (last pb)) = Inr vb \<and>
                        nextPlayer = (if js_seq va vb then (if userId = a then b else a)
                                      else if js_gt va vb then a else b)))) \<and>
         withRoundWinnerValidation C deal thrown = Inr g' \<and>
         (getRoundWinner C (getPlayersIds g) (thrownCards (state thrown)) = None \<longrightarrow>
            g' = thrown)"
  proof (intro exI[of _ hand] exI[of _ t] exI[of _ thrown] conjI)
    show "cards (state g) userId = Some hand" by (rule hand(1))
    show "crd \<in> set hand" by (rule hand(2))
    show "thrown = g\<lparr> events := events g @ [THROW_CARD userId crd t],
                      state := (state g)\<lparr>
                        cards := (cards (state g))(userId \<mapsto> filter (\<lambda>c. c \<noteq> crd) hand),
                        thrownCards := (thrownCards (state g))
                          (userId \<mapsto> (case thrownCards (state g) userId of
                                         None \<Rightarrow> [] | Some t \<Rightarrow> t) @ [crd]),
                        playerTurn := t \<rparr> \<rparr>" by (simp add: thrown_def pile_def)
    show "\<forall>a b pa pb. getPlayersIds g = [a, b] \<and>
            pa = (case thrownCards (state thrown) a of None \<Rightarrow> [] | Some t \<Rightarrow> t) \<and>
            pb = (case thrownCards (state thrown) b of None \<Rightarrow> [] | Some t \<Rightarrow> t) \<longrightarrow>
            (length pa \<noteq> length pb \<longrightarrow>
               t = (if length pa < length pb then a else b)) \<and>
            (length pa = length pb \<longrightarrow>
               (\<exists>va vb. getCardValue C (if pa = [] then None else Some (last pa)) = Inr va \<and>
                        getCardValue C (if pb = [] then None else Some (last pb)) = Inr vb \<and>
                        t = (if js_seq va vb then (if userId = a then b else a)
                             else if js_gt va vb then a else b)))"
      using next_player by (intro allI impI)
    show "withRoundWinnerValidation C deal thrown = Inr g'" by (rule v')
    show "getRoundWinner C (getPlayersIds g) (thrownCards (state thrown)) = None \<longrightarrow>
            g' = thrown" by (rule none)
  qed
qed

text \<open>On \<open>game1\<close> and \<open>game2\<close>: bob throws out of turn; bob throws while alice's envido
  awaits his answer; alice throws a card she does not hold; alice throws her 7 of swords
  and bob, who has thrown fewer cards, is next. On \<open>game3\<close>, bob answers with his 5 of
  clubs: the trick is complete and alice, whose card is higher, is next. On
  \<open>trick2Game\<close>, alice throws her 6 of swords onto her pile and bob is next.\<close>

theorem throwCard_contract_witness:
  "playerTurn (state game1) = 1 \<and>
   throwCard spanishCards hands game1 2 (Card BASTO 5) = Inl NotYourTurn \<and>
   playerTurn (state game2) = 2 \<and> isWaitingResponse game2 \<and>
   throwCard spanishCards hands game2 2 (Card BASTO 5) = Inl WaitingResponse \<and>
   \<not> isWaitingResponse game1 \<and> cards (state game1) 1 = Some (fst hands) \<and>
   Card ORO 1 \<notin> set (fst hands) \<and>
   throwCard spanishCards hands game1 1 (Card ORO 1) = Inl InvalidCard \<and>
   (\<exists>g'. throwCard spanishCards hands game1 1 (Card ESPADA 7) = Inr g' \<and>
      cards (state g') 1 = Some [Card ESPADA 6, Card COPA 4] \<and>
      thrownCards (state g') 1 = Some [Card ESPADA 7] \<and>
      playerTurn (state g') = 2 \<and>
      events g' = events game1 @ [THROW_CARD 1 (Card ESPADA 7) 2]) \<and>
   (\<exists>g'. throwCard spanishCards hands game3 2 (Card BASTO 5) = Inr g' \<and>
      cards (state g') 2 = Some [Card BASTO 4, Card ORO 1] \<and>
      thrownCards (state g') 1 = Some [Card ESPADA 7] \<and>
      thrownCards (state g') 2 = Some [Card BASTO 5] \<and>
      playerTurn (state g') = 1 \<and>
      events g' = events game3 @ [THROW_CARD 2 (Card BASTO 5) 1]) \<and>
   (\<exists>g'. throwCard spanishCards hands trick2Game 1 (Card ESPADA 6) = Inr g' \<and>
      cards (state g') 1 = Some [Card COPA 4] \<and>
      thrownCards (state g') 1 = Some [Card ESPADA 7, Card ESPADA 6] \<and>
      playerTurn (state g') = 2 \<and>
      events g' = events trick2Game @ [THROW_CARD 1 (Card ESPADA 6) 2])"
proof -
  have h: "playerTurn (state game1) = 1" "\<not> isWaitingResponse game1"
    "cards (state game1) 1 = Some (fst hands)" "Card ORO 1 \<notin> set (fst hands)"
    "thrownCards (state game1) = Map.empty"
    by (simp_all add: game1_def isWaitingResponse_def hands_def)
  have w: "playerTurn (state game2) = 2" "isWaitingResponse game2"
    by (simp_all add: game2_def isWaitingResponse_def)
  have n: "throwCard spanishCards hands game1 2 (Card BASTO 5) = Inl NotYourTurn"
    using throwCard_contract[of game1 2 spanishCards hands "Card BASTO 5"] h by simp
  have r: "throwCard spanishCards hands game2 2 (Card BASTO 5) = Inl WaitingResponse"
    using throwCard_contract[of game2 2 spanishCards hands "Card BASTO 5"] w by simp
  have i: "throwCard spanishCards hands game1 1 (Card ORO 1) = Inl InvalidCard"
    using throwCard_contract[of game1 1 spanishCards hands "Card ORO 1"] h by simp
  from throw_game1 obtain g' where g': "throwCard spanishCards hands game1 1 (Card ESPADA 7) = Inr g'"
    by blast
  note tc = throwCard_contract[of game1 1 spanishCards hands "Card ESPADA 7"]
  note ex = conjunct2[OF conjunct2[OF conjunct2[OF tc]], rule_format, OF g']
  from ex obtain hand nextPlayer thrown where
    t: "cards (state game1) 1 = Some hand"
       "Card ESPADA 7 \<in> set hand"
       "thrown = game1\<lparr> events := events game1 @ [THROW_CARD 1 (Card ESPADA 7) nextPlayer],
                      state := (state game1)\<lparr>
                        cards := (cards (state game1))(1 \<mapsto> filter (\<lambda>c. c \<noteq> Card ESPADA 7) hand),
                        thrownCards := (thrownCards (state game1))
                          (1 \<mapsto> (case thrownCards (state game1) 1 of
                                   None \<Rightarrow> [] | Some t \<Rightarrow> t) @ [Card ESPADA 7]),
                        playerTurn := nextPlayer \<rparr> \<rparr>"
       "\<forall>a b pa pb. getPlayersIds game1 = [a, b] \<and>
            pa = (case thrownCards (state thrown) a of None \<Rightarrow> [] | Some t \<Rightarrow> t) \<and>
            pb = (case thrownCards (state thrown) b of None \<Rightarrow> [] | Some t \<Rightarrow> t) \<longrightarrow>
            (length pa \<noteq> length pb \<longrightarrow>
               nextPlayer = (if length pa < length pb then a else b)) \<and>
            (length pa = length pb \<longrightarrow>
               (\<exists>va vb. getCardValue spanishCards (if pa = [] then None else Some (last pa)) = Inr va \<and>
                        getCardValue spanishCards (if pb = [] then None else Some (last pb)) = Inr vb \<and>
                        nextPlayer = (if js_seq va vb then (if (1::int) = a then b else a)
                                      else if js_gt va vb then a else b)))"
       "withRoundWinnerValidation spanishCards hands thrown = Inr g'"
       "getRoundWinner spanishCards (getPlayersIds game1) (thrownCards (state thrown)) = None \<longrightarrow>
            g' = thrown"
    by (elim exE conjE)
  have hd: "hand = fst hands" using t(1) h(3) by simp
  have tcs: "thrownCards (state thrown) = [1 \<mapsto> [Card ESPADA 7]]"
    by (simp add: t(3) h)
  have np: "nextPlayer = 2"
    using t(4)[rule_format, of 1 2 "[Card ESPADA 7]" "[]"] by (simp add: ids_game1 tcs)
  have "getRoundWinner spanishCards (getPlayersIds game1) (thrownCards (state thrown)) = None"
    by (simp add: tcs ids_game1 spanishCards_def roundWinner_def)
  with t(6) have e: "g' = thrown" by simp
  have "cards (state g') 1 = Some [Card ESPADA 6, Card COPA 4] \<and>
      thrownCards (state g') 1 = Some [Card ESPADA 7] \<and>
      playerTurn (state g') = 2 \<and>
      events g' = events game1 @ [THROW_CARD 1 (Card ESPADA 7) 2]"
    by (simp add: e t(3) hd h np) (simp add: hands_def)
  with g' have s: "\<exists>g'. throwCard spanishCards hands game1 1 (Card ESPADA 7) = Inr g' \<and>
      cards (state g') 1 = Some [Card ESPADA 6, Card COPA 4] \<and>
      thrownCards (state g') 1 = Some [Card ESPADA 7] \<and>
      playerTurn (state g') = 2 \<and>
      events g' = events game1 @ [THROW_CARD 1 (Card ESPADA 7) 2]"
    by (intro exI[of _ g']) simp
  from h w n r i s throw_game3 throw_trick2Game show ?thesis by simp
qed


text \<open>
  C8 as stated fails on a game that has not been started: nobody has a hand, so no card
  equal to the thrown one is in \<^verbatim>\<open>cards[userId]\<close>, and the creator, who is on turn, gets the
  runtime's TypeError from \<^verbatim>\<open>cards[userId].includes\<close> instead of \<^verbatim>\<open>'Invalid card'\<close>.
\<close>

theorem throwCard_counterexample:
  "throwCard spanishCards hands (new alice) 1 (Card ORO 1) = Inl TypeError"
  by (simp add: throwCard_def new_def alice_def isWaitingResponse_def)

section \<open>C9: the event log is append-only\<close>

lemma appendedI: "events g' = events g @ es \<Longrightarrow> es \<noteq> [] \<Longrightarrow> appended g g'"
  by (simp add: appended_def getNewEvents_def)

lemma withNextRoundOrWin_events:
  assumes "withNextRoundOrWin deal g = Inr g'"
  shows "\<exists>e. events g' = events g @ [e]"
proof (cases "withWinnerResult g")
  case (Inl e)
  with assms show ?thesis by (simp add: withNextRoundOrWin_def ebind_def)
next
  case (Inr r)
  show ?thesis
  proof (cases r)
    case None
    with Inr assms show ?thesis
      by (auto simp: withNextRoundOrWin_def ebind_def Let_def split: sum.splits)
  next
    case (Some h)
    with Inr assms have "h = g'" by (simp add: withNextRoundOrWin_def ebind_def)
    with Some Inr withWinnerResult_result[of g g'] show ?thesis by auto
  qed
qed

lemma setRoundWinner_events:
  assumes "setRoundWinner deal g w = Inr g'"
  shows "\<exists>pts e. events g' = events g @ [ROUND_RESULT w pts, e]"
  using assms withNextRoundOrWin_events[of deal _ g']
  by (fastforce simp: setRoundWinner_def Let_def)

lemma withRoundWinnerValidation_events:
  assumes "withRoundWinnerValidation C deal g = Inr g'"
  shows "\<exists>es. events g' = events g @ es"
  using assms setRoundWinner_events[of deal g _ g']
  by (fastforce simp: withRoundWinnerValidation_def split: option.splits)

lemma start_events:
  assumes "start deal g = Inr g'"
  shows "\<exists>e. events g' = events g @ [START, e]"
  using assms by (auto simp: start_def ebind_def Let_def split: sum.splits)

lemma callEnvido_events:
  assumes "callEnvido g u c = Inr g'"
  shows "events g' = events g @ [ENVIDO_CALL c u]"
  using assms by (auto simp: callEnvido_def ebind_def Let_def split: sum.splits if_splits)

lemma goToDeck_events:
  assumes "goToDeck deal g u = Inr g'"
  shows "\<exists>w pts e. events g' = events g @ [TO_DECK u, ROUND_RESULT w pts, e]"
proof -
  from assms obtain w where
    "setRoundWinner deal (g\<lparr> events := events g @ [TO_DECK u] \<rparr>) w = Inr g'"
    by (auto simp: goToDeck_def ebind_def split: if_splits sum.splits)
  from setRoundWinner_events[OF this] show ?thesis by auto
qed

lemma throwCard_events:
  assumes "throwCard C deal g u c = Inr g'"
  shows "\<exists>t es. events g' = events g @ THROW_CARD u c t # es"
proof -
  from assms obtain mid where
    v: "withRoundWinnerValidation C deal
          (mid\<lparr> events := events g @ [THROW_CARD u c (playerTurn (state mid))] \<rparr>) = Inr g'"
    by (auto simp: throwCard_def ebind_def split: if_splits sum.splits option.splits)
  from withRoundWinnerValidation_events[OF v] show ?thesis by auto
qed

lemma answerEnvido_events:
  assumes "answerEnvido C g u acc = Inr g'"
  shows "\<exists>pts es. events g' =
           events g @ (if acc then ENVIDO_ACCEPTED u pts else ENVIDO_DECLINED u pts) # es"
  using assms
  by (auto simp: answerEnvido_def ebind_def Let_def
           split: if_splits sum.splits option.splits prod.splits
           dest!: withWinnerResult_result)

text \<open>
  C9 as the code has it: every game returned by \<^verbatim>\<open>start\<close>, \<^verbatim>\<open>throwCard\<close>, \<^verbatim>\<open>envido\<close>,
  \<^verbatim>\<open>answerEnvido\<close> or \<^verbatim>\<open>goToDeck\<close> has the prior event list as a prefix of its own, with
  at least one event appended, and \<^verbatim>\<open>getNewEvents\<close> of the prior game is exactly the
  appended suffix. \<^verbatim>\<open>join\<close> leaves the event list as it is and \<^verbatim>\<open>getNewEvents\<close> is empty
  for it.
\<close>

theorem events_append_only:
  "(\<forall>g'. start deal g = Inr g' \<longrightarrow> appended g g') \<and>
   (\<forall>g'. throwCard C deal g userId crd = Inr g' \<longrightarrow> appended g g') \<and>
   (\<forall>g'. callEnvido g userId c = Inr g' \<longrightarrow> appended g g') \<and>
   (\<forall>g'. answerEnvido C g userId acc = Inr g' \<longrightarrow> appended g g') \<and>
   (\<forall>g'. goToDeck deal g userId = Inr g' \<longrightarrow> appended g g') \<and>
   events (join g user) = events g \<and> getNewEvents (join g user) g = []"
proof (intro conjI allI impI)
  fix g' assume "start deal g = Inr g'"
  from start_events[OF this] show "appended g g'" by (auto intro: appendedI)
next
  fix g' assume "throwCard C deal g userId crd = Inr g'"
  from throwCard_events[OF this] show "appended g g'" by (auto intro: appendedI)
next
  fix g' assume "callEnvido g userId c = Inr g'"
  from callEnvido_events[OF this] show "appended g g'" by (auto intro: appendedI)
next
  fix g' assume "answerEnvido C g userId acc = Inr g'"
  from answerEnvido_events[OF this] show "appended g g'" by (auto intro: appendedI)
next
  fix g' assume "goToDeck deal g userId = Inr g'"
  from goToDeck_events[OF this] show "appended g g'" by (auto intro: appendedI)
next
  show "events (join g user) = events g" by (simp add: join_def)
  show "getNewEvents (join g user) g = []" by (simp add: join_def getNewEvents_def)
qed

text \<open>One run of each transition, from the lobby on.\<close>

lemma answer_game2:
  "\<exists>g'. answerEnvido spanishCards game2 2 False = Inr g'"
  by (simp add: answerEnvido_def analyzeEnvido_def step_def thrownOf_def
                game2_def game1_def run_defs)

lemma deck_game1:
  "\<exists>g'. goToDeck hands game1 1 = Inr g'"
  by (simp add: game1_def run_defs)

theorem events_append_only_witness:
  "start hands lobby = Inr game1 \<and> appended lobby game1 \<and>
   getNewEvents game1 lobby = [START, NEXT_ROUND 1 [1 \<mapsto> fst hands, 2 \<mapsto> snd hands] 1] \<and>
   (\<exists>g'. throwCard spanishCards hands game1 1 (Card ESPADA 7) = Inr g' \<and> appended game1 g') \<and>
   callEnvido game1 1 ENVIDO = Inr game2 \<and> appended game1 game2 \<and>
   (\<exists>g'. answerEnvido spanishCards game2 2 False = Inr g' \<and> appended game2 g') \<and>
   (\<exists>g'. goToDeck hands game1 1 = Inr g' \<and> appended game1 g') \<and>
   events (join (new alice :: Card Game) bob) = [] \<and>
   getNewEvents (join (new alice :: Card Game) bob) (new alice) = []"
proof -
  have a: "appended lobby game1"
    using events_append_only[of hands lobby spanishCards 1 "Card ESPADA 7" ENVIDO False bob]
      start_lobby by blast
  have n: "getNewEvents game1 lobby = [START, NEXT_ROUND 1 [1 \<mapsto> fst hands, 2 \<mapsto> snd hands] 1]"
    by (simp add: getNewEvents_def game1_def lobby_def join_def new_def)
  have b: "\<exists>g'. throwCard spanishCards hands game1 1 (Card ESPADA 7) = Inr g' \<and> appended game1 g'"
    using events_append_only[of hands game1 spanishCards 1 "Card ESPADA 7" ENVIDO False bob]
      throw_game1 by blast
  have c: "appended game1 game2"
    using events_append_only[of hands game1 spanishCards 1 "Card ESPADA 7" ENVIDO False bob]
      envido_game1 by blast
  have d: "\<exists>g'. answerEnvido spanishCards game2 2 False = Inr g' \<and> appended game2 g'"
    using events_append_only[of hands game2 spanishCards 2 "Card ESPADA 7" ENVIDO False bob]
      answer_game2 by blast
  have e: "\<exists>g'. goToDeck hands game1 1 = Inr g' \<and> appended game1 g'"
    using events_append_only[of hands game1 spanishCards 1 "Card ESPADA 7" ENVIDO False bob]
      deck_game1 by blast
  have f: "events (join (new alice :: Card Game) bob) = []"
    "getNewEvents (join (new alice :: Card Game) bob) (new alice) = []"
    using events_append_only[of hands "new alice :: Card Game" spanishCards 1 "Card ESPADA 7"
        ENVIDO False bob]
    by (simp_all add: new_def)
  from a n b c d e f start_lobby envido_game1 show ?thesis by blast
qed

text \<open>
  C9 as stated fails for \<^verbatim>\<open>join\<close>: it returns a new game and appends no event.
\<close>

theorem join_counterexample:
  "events (join (new alice :: Card Game) bob) = events (new alice :: Card Game) \<and>
   getNewEvents (join (new alice :: Card Game) bob) (new alice) = []"
  by (simp add: join_def new_def getNewEvents_def)

section \<open>C10: raising a pending envido\<close>

text \<open>
  C10: \<^verbatim>\<open>envido(userId, call)\<close> never fails with \<^verbatim>\<open>'Waiting response'\<close>. When it returns
  a game, the call is appended to \<^verbatim>\<open>envido.calls\<close>, \<^verbatim>\<open>acceptedBy\<close>, \<^verbatim>\<open>accepted\<close>,
  \<^verbatim>\<open>winner\<close> and \<^verbatim>\<open>playersPoints\<close> are undefined, \<^verbatim>\<open>lastCaller\<close> is the caller,
  \<^verbatim>\<open>waitingResponse\<close> is true and the turn is the opponent's. And while an envido awaits
  a response, a valid call by the player to act, at step 1 of a two-player game, does
  return a game.
\<close>

theorem callEnvido_while_waiting:
  "callEnvido g userId c \<noteq> Inl WaitingResponse \<and>
   (\<forall>g'. callEnvido g userId c = Inr g' \<longrightarrow>
      calls (envido (state g')) = calls (envido (state g)) @ [c] \<and>
      acceptedBy (envido (state g')) = None \<and>
      accepted (envido (state g')) = None \<and>
      envidoWinner (envido (state g')) = None \<and>
      playersPoints (envido (state g')) = None \<and>
      lastCaller (envido (state g')) = Some userId \<and>
      waitingResponse (envido (state g')) \<and>
      otherPlayerId g userId = Inr (playerTurn (state g'))) \<and>
   (waitingResponse (envido (state g)) \<and> getPlayersIds g = [a, b] \<and> a \<noteq> b \<and>
    playerTurn (state g) = userId \<and> step g = Inr 1 \<and> isValidEnvidoCall g c \<longrightarrow>
      (\<exists>g'. callEnvido g userId c = Inr g' \<and>
            playerTurn (state g') = (if userId = a then b else a)))"
proof (intro conjI allI impI)
  show "callEnvido g userId c \<noteq> Inl WaitingResponse"
    by (auto simp: callEnvido_def ebind_def Let_def split: sum.splits if_splits
             dest: step_error otherPlayerId_error)
next
  fix g' assume "callEnvido g userId c = Inr g'"
  then obtain opp where o: "otherPlayerId g userId = Inr opp"
    and g': "g' = g\<lparr> events := events g @ [ENVIDO_CALL c userId],
                   state := (state g)\<lparr> envido := \<lparr> calls = calls (envido (state g)) @ [c],
                            firstCaller = (case firstCaller (envido (state g)) of
                                             None \<Rightarrow> Some userId
                                           | Some f \<Rightarrow> if f = 0 then Some userId else Some f),
                            lastCaller = Some userId, acceptedBy = None, accepted = None,
                            waitingResponse = True, envidoWinner = None,
                            playersPoints = None \<rparr>, playerTurn := opp \<rparr> \<rparr>"
    by (auto simp: callEnvido_def ebind_def Let_def split: sum.splits if_splits)
  show "calls (envido (state g')) = calls (envido (state g)) @ [c]" by (simp add: g')
  show "acceptedBy (envido (state g')) = None" by (simp add: g')
  show "accepted (envido (state g')) = None" by (simp add: g')
  show "envidoWinner (envido (state g')) = None" by (simp add: g')
  show "playersPoints (envido (state g')) = None" by (simp add: g')
  show "lastCaller (envido (state g')) = Some userId" by (simp add: g')
  show "waitingResponse (envido (state g'))" by (simp add: g')
  show "otherPlayerId g userId = Inr (playerTurn (state g'))" by (simp add: g' o)
next
  assume h: "waitingResponse (envido (state g)) \<and> getPlayersIds g = [a, b] \<and> a \<noteq> b \<and>
    playerTurn (state g) = userId \<and> step g = Inr 1 \<and> isValidEnvidoCall g c"
  then have "otherPlayerId g userId = Inr (if userId = a then b else a)"
    using otherPlayerId_two by blast
  with h show "\<exists>g'. callEnvido g userId c = Inr g' \<and>
            playerTurn (state g') = (if userId = a then b else a)"
    by (simp add: callEnvido_def ebind_def Let_def)
qed

text \<open>bob answers alice's envido with real envido.\<close>

theorem callEnvido_while_waiting_witness:
  "waitingResponse (envido (state game2)) \<and> getPlayersIds game2 = [1, 2] \<and>
   playerTurn (state game2) = 2 \<and> step game2 = Inr 1 \<and> isValidEnvidoCall game2 REAL_ENVIDO \<and>
   (\<exists>g'. callEnvido game2 2 REAL_ENVIDO = Inr g' \<and>
         calls (envido (state g')) = [ENVIDO, REAL_ENVIDO] \<and>
         acceptedBy (envido (state g')) = None \<and>
         accepted (envido (state g')) = None \<and>
         envidoWinner (envido (state g')) = None \<and>
         playersPoints (envido (state g')) = None \<and>
         lastCaller (envido (state g')) = Some 2 \<and>
         waitingResponse (envido (state g')) \<and>
         playerTurn (state g') = 1)"
proof -
  have h: "waitingResponse (envido (state game2))" "playerTurn (state game2) = 2"
    "calls (envido (state game2)) = [ENVIDO]"
    by (simp_all add: game2_def)
  note s = step_game2
  have v: "isValidEnvidoCall game2 REAL_ENVIDO" by (simp add: isValidEnvidoCall_def h)
  from callEnvido_while_waiting[of game2 2 REAL_ENVIDO 1 2] h s v ids_game2
  obtain g' where g: "callEnvido game2 2 REAL_ENVIDO = Inr g'" "playerTurn (state g') = 1"
    by auto
  from callEnvido_while_waiting[of game2 2 REAL_ENVIDO 1 2] g h
  have "calls (envido (state g')) = [ENVIDO, REAL_ENVIDO] \<and>
         acceptedBy (envido (state g')) = None \<and>
         accepted (envido (state g')) = None \<and>
         envidoWinner (envido (state g')) = None \<and>
         playersPoints (envido (state g')) = None \<and>
         lastCaller (envido (state g')) = Some 2 \<and>
         waitingResponse (envido (state g'))"
    by simp
  with g h s v ids_game2 show ?thesis by blast
qed

end
